theory Spec2Isabelle
  imports Main "HOL-Library.Word"
begin

unbundle bit_operations_syntax

section \<open>The TPM character driver \<^verbatim>\<open>tpm_nopci.c\<close>\<close>

text \<open>
  A shallow embedding of \<^verbatim>\<open>linux-2.6-xen-sparse/drivers/char/tpm/tpm_nopci.c\<close>:
  the device registry with its device-number bitmap, the transaction engine
  \<^verbatim>\<open>tpm_transmit\<close>, the buffered write/read hand-off with its expiry timer, and the
  PCR read encoder.  The model describes one thread of control at a time; data is a byte
  list, C \<^verbatim>\<open>int\<close> values used bitwise are 32-bit words, return codes and counters are
  integers, and every vendor callback is a function on an abstract hardware state.
\<close>

subsection \<open>Constants\<close>

type_synonym u8 = "8 word"
type_synonym u32 = "32 word"

text \<open>The first \<^verbatim>\<open>enum\<close> of the file; \<^verbatim>\<open>sizeof(int)\<close> is 4.\<close>

definition TPM_MINOR :: int where "TPM_MINOR = 224"
definition TPM_BUFSIZE :: nat where "TPM_BUFSIZE = 2048"
definition TPM_NUM_DEVICES :: nat where "TPM_NUM_DEVICES = 256"
definition TPM_NUM_MASK_ENTRIES :: nat where
  "TPM_NUM_MASK_ENTRIES = TPM_NUM_DEVICES div (8 * 4)"

definition TPM_DIGEST_SIZE :: nat where "TPM_DIGEST_SIZE = 20"
definition READ_PCR_RESULT_SIZE :: nat where "READ_PCR_RESULT_SIZE = 30"

text \<open>Linux error numbers, as the kernel headers define them.\<close>

definition E2BIG :: int where "E2BIG = 7"
definition ENOMEM :: int where "ENOMEM = 12"
definition EFAULT :: int where "EFAULT = 14"
definition EBUSY :: int where "EBUSY = 16"
definition ENODEV :: int where "ENODEV = 19"
definition ENOSPC :: int where "ENOSPC = 28"
definition ENODATA :: int where "ENODATA = 61"
definition ETIME :: int where "ETIME = 62"
definition ECANCELED :: int where "ECANCELED = 125"
definition MISC_DYNAMIC_MINOR :: int where "MISC_DYNAMIC_MINOR = 255"

subsection \<open>Vendor binding and chip\<close>

text \<open>
  The vendor callbacks act on the state \<open>'hw\<close> of the device behind the chip.
  \<open>recv\<close> gets the buffer and its capacity and returns the buffer as it left it;
  \<open>send\<close> gets the buffer and the byte count of the command.
\<close>

record 'hw tpm_vendor_specific =
  req_complete_mask :: u8
  req_complete_val :: u8
  req_canceled :: u8
  recv :: "'hw \<Rightarrow> u8 list \<Rightarrow> nat \<Rightarrow> int \<times> u8 list \<times> 'hw"
  send :: "'hw \<Rightarrow> u8 list \<Rightarrow> nat \<Rightarrow> int \<times> 'hw"
  cancel :: "'hw \<Rightarrow> 'hw"
  status :: "'hw \<Rightarrow> u8 \<times> 'hw"
  miscdev_minor :: int

text \<open>
  The calls made into the vendor binding, in order: a log kept beside the chip so that
  statements about which callback ran, and how often, can be written down.
\<close>

datatype vendor_call = Send "u8 list" nat | Status | Cancel | Recv nat

text \<open>
  \<^verbatim>\<open>struct tpm_chip\<close>.  \<open>dev\<close> is the \<^verbatim>\<open>struct device\<close> the chip was registered for,
  a semaphore is its count (1 when free), the timer is its expiry time when armed,
  \<open>data_pending\<close> and \<open>data_position\<close> are the two \<^verbatim>\<open>atomic_t\<close> fields.
\<close>

record 'hw tpm_chip =
  dev :: nat
  dev_num :: int
  num_opens :: int
  data_buffer :: "u8 list"
  data_pending :: int
  data_position :: int
  user_read_timer :: "nat option"
  buffer_mutex :: nat
  tpm_mutex :: nat
  vendor :: "'hw tpm_vendor_specific"
  hw :: 'hw
  calls :: "vendor_call list"

text \<open>
  The file-scope state: \<^verbatim>\<open>tpm_chip_list\<close> (a chip is added at the head) and
  \<^verbatim>\<open>int dev_mask[32]\<close>.
\<close>

record 'hw driver =
  tpm_chip_list :: "'hw tpm_chip list"
  dev_mask :: "u32 list"

definition driver_init :: "'hw driver" where
  "driver_init = \<lparr>tpm_chip_list = [], dev_mask = replicate 32 0\<rparr>"

declare driver_init_def [code_unfold]

subsection \<open>Registration and removal\<close>

text \<open>C's logical negation \<^verbatim>\<open>!x\<close> on an \<^verbatim>\<open>int\<close>.\<close>

definition c_lnot :: "u32 \<Rightarrow> u32" where
  "c_lnot x = (if x = 0 then 1 else 0)"

text \<open>
  The two nested loops of \<^verbatim>\<open>tpm_register_hardware_nopci\<close>: the inner one over the bits
  \<open>j\<close> of one word, the outer one over the words \<open>i\<close>; the first clear bit ends both.
\<close>

fun search_bits :: "u32 \<Rightarrow> nat list \<Rightarrow> nat option" where
  "search_bits w [] = None"
| "search_bits w (j # js) =
     (if w AND push_bit j 1 = 0 then Some j else search_bits w js)"

fun search_words :: "u32 list \<Rightarrow> nat list \<Rightarrow> (nat \<times> nat) option" where
  "search_words m [] = None"
| "search_words m (i # is) =
     (case search_bits (m ! i) [0..<8 * 4] of
        Some j \<Rightarrow> Some (i, j)
      | None \<Rightarrow> search_words m is)"

definition dev_num_search :: "u32 list \<Rightarrow> (nat \<times> nat) option" where
  "dev_num_search m = search_words m [0..<TPM_NUM_MASK_ENTRIES]"

text \<open>The chip after \<^verbatim>\<open>memset(chip, 0, ...)\<close>, the two \<^verbatim>\<open>init_MUTEX\<close> and \<^verbatim>\<open>init_timer\<close>.\<close>

definition fresh_chip :: "nat \<Rightarrow> 'hw tpm_vendor_specific \<Rightarrow> 'hw \<Rightarrow> 'hw tpm_chip" where
  "fresh_chip d entry h =
     \<lparr>dev = d, dev_num = - 1, num_opens = 0, data_buffer = [], data_pending = 0,
      data_position = 0, user_read_timer = None, buffer_mutex = 1, tpm_mutex = 1,
      vendor = entry, hw = h, calls = []\<rparr>"

text \<open>
  \<^verbatim>\<open>tpm_register_hardware_nopci\<close>.  \<open>kmalloc_ok\<close> and \<open>misc_ok\<close> say whether the
  allocation and \<^verbatim>\<open>misc_register\<close> succeed.  The return code comes with the new state.
\<close>

definition tpm_register_hardware_nopci ::
  "bool \<Rightarrow> bool \<Rightarrow> nat \<Rightarrow> 'hw tpm_vendor_specific \<Rightarrow> 'hw \<Rightarrow> 'hw driver \<Rightarrow> int \<times> 'hw driver" where
  "tpm_register_hardware_nopci kmalloc_ok misc_ok d entry h drv =
     (if \<not> kmalloc_ok then (- ENOMEM, drv)
      else case dev_num_search (dev_mask drv) of
        None \<Rightarrow> (- ENODEV, drv)
      | Some (i, j) \<Rightarrow>
          let m = (dev_mask drv)[i := (dev_mask drv ! i) OR push_bit j 1];
              n = int (i * TPM_NUM_MASK_ENTRIES + j);
              entry' = entry\<lparr>miscdev_minor :=
                         (if n = 0 then TPM_MINOR else MISC_DYNAMIC_MINOR)\<rparr>;
              chip = (fresh_chip d entry' h)\<lparr>dev_num := n\<rparr>
          in if \<not> misc_ok
             then (- ENODEV, drv\<lparr>dev_mask := m[i := (m ! i) AND c_lnot (push_bit j 1)]\<rparr>)
             else (0, drv\<lparr>tpm_chip_list := chip # tpm_chip_list drv, dev_mask := m\<rparr>))"

text \<open>\<^verbatim>\<open>dev_get_drvdata\<close>: the chip registered for a device, the latest one first.\<close>

fun dev_get_drvdata :: "nat \<Rightarrow> 'hw tpm_chip list \<Rightarrow> 'hw tpm_chip option" where
  "dev_get_drvdata d [] = None"
| "dev_get_drvdata d (c # cs) = (if dev c = d then Some c else dev_get_drvdata d cs)"

text \<open>\<^verbatim>\<open>list_del\<close> of that chip.\<close>

fun list_del :: "nat \<Rightarrow> 'hw tpm_chip list \<Rightarrow> 'hw tpm_chip list" where
  "list_del d [] = []"
| "list_del d (c # cs) = (if dev c = d then cs else c # list_del d cs)"

text \<open>
  \<^verbatim>\<open>tpm_remove_hardware\<close>: word \<^verbatim>\<open>dev_num / TPM_NUM_MASK_ENTRIES\<close> of the bitmap is
  and-ed with \<^verbatim>\<open>!(1 << (dev_num % TPM_NUM_MASK_ENTRIES))\<close>.
\<close>

definition tpm_remove_hardware :: "nat \<Rightarrow> 'hw driver \<Rightarrow> 'hw driver" where
  "tpm_remove_hardware d drv =
     (case dev_get_drvdata d (tpm_chip_list drv) of
        None \<Rightarrow> drv
      | Some chip \<Rightarrow>
          let k = nat (dev_num chip) div TPM_NUM_MASK_ENTRIES;
              b = nat (dev_num chip) mod TPM_NUM_MASK_ENTRIES
          in drv\<lparr>tpm_chip_list := list_del d (tpm_chip_list drv),
                 dev_mask := (dev_mask drv)[k := (dev_mask drv ! k) AND c_lnot (push_bit b 1)]\<rparr>)"

text \<open>A run of registrations for the devices \<open>ds\<close>, each with working allocation and
  \<^verbatim>\<open>misc_register\<close>; the return codes are collected in order.\<close>

fun register_all ::
  "nat list \<Rightarrow> 'hw tpm_vendor_specific \<Rightarrow> 'hw \<Rightarrow> 'hw driver \<Rightarrow> int list \<times> 'hw driver" where
  "register_all [] entry h drv = ([], drv)"
| "register_all (d # ds) entry h drv =
     (let (rc, drv1) = tpm_register_hardware_nopci True True d entry h drv;
          (rcs, drv2) = register_all ds entry h drv1
      in (rc # rcs, drv2))"

subsection \<open>Time, sleeping and semaphores\<close>

text \<open>
  What the driver takes from its surroundings: the tick rate \<^verbatim>\<open>HZ\<close>, the two constants
  \<^verbatim>\<open>TPM_ANY_NUM\<close> and \<^verbatim>\<open>TPM_CHIP_NUM_MASK\<close> of \<^verbatim>\<open>tpm_nopci.h\<close>, how many ticks
  beyond the first one a call of \<^verbatim>\<open>msleep(TPM_TIMEOUT)\<close> that starts at a given time
  takes, and what the device does by itself during one such sleep.  \<^verbatim>\<open>jiffies\<close> is a
  natural number that only grows.
\<close>

record 'hw platform =
  HZ :: nat
  TPM_ANY_NUM :: int
  TPM_CHIP_NUM_MASK :: u32
  msleep_extra :: "nat \<Rightarrow> nat"
  hw_elapse :: "'hw \<Rightarrow> 'hw"

definition msleep :: "'hw platform \<Rightarrow> 'hw tpm_chip \<Rightarrow> nat \<Rightarrow> 'hw tpm_chip \<times> nat" where
  "msleep p chip j = (chip\<lparr>hw := hw_elapse p (hw chip)\<rparr>, Suc (j + msleep_extra p j))"

text \<open>
  \<^verbatim>\<open>down\<close> takes a free semaphore; on a held one the caller sleeps until another thread
  releases it, which in this model of a single thread never happens: \<open>None\<close>.
\<close>

definition down :: "nat \<Rightarrow> nat option" where
  "down m = (if 0 < m then Some (m - 1) else None)"

definition up :: "nat \<Rightarrow> nat" where
  "up m = Suc m"

subsection \<open>The transaction engine\<close>

text \<open>\<^verbatim>\<open>be32_to_cpu(*((__be32 *) (buf + off)))\<close>: four bytes, most significant first.\<close>

definition be32_to_cpu :: "u8 list \<Rightarrow> nat \<Rightarrow> u32" where
  "be32_to_cpu buf off =
     push_bit 24 (ucast (buf ! off)) OR push_bit 16 (ucast (buf ! (off + 1))) OR
     push_bit 8 (ucast (buf ! (off + 2))) OR ucast (buf ! (off + 3))"

text \<open>\<^verbatim>\<open>cpu_to_be32\<close> followed by the 4-byte \<^verbatim>\<open>memcpy\<close> to \<^verbatim>\<open>data + off\<close>.\<close>

definition put_be32 :: "u8 list \<Rightarrow> nat \<Rightarrow> u32 \<Rightarrow> u8 list" where
  "put_be32 buf off v =
     buf[off := ucast (drop_bit 24 v), off + 1 := ucast (drop_bit 16 v),
         off + 2 := ucast (drop_bit 8 v), off + 3 := ucast v]"

datatype poll_result = Complete | Cancelled | Expired

text \<open>
  The \<^verbatim>\<open>do ... while (time_before(jiffies, stop))\<close> loop of \<^verbatim>\<open>tpm_transmit\<close>, with the
  chip and the time as they are when the loop is left.
\<close>

function poll_status ::
  "'hw platform \<Rightarrow> nat \<Rightarrow> 'hw tpm_chip \<Rightarrow> nat \<Rightarrow> poll_result \<times> 'hw tpm_chip \<times> nat" where
  "poll_status p stop chip j =
     (let r = status (vendor chip) (hw chip);
          chip1 = chip\<lparr>hw := snd r, calls := calls chip @ [Status]\<rparr>
      in if fst r AND req_complete_mask (vendor chip) = req_complete_val (vendor chip)
         then (Complete, chip1, j)
         else if fst r = req_canceled (vendor chip)
         then (Cancelled, chip1, j)
         else if snd (msleep p chip1 j) < stop
         then poll_status p stop (fst (msleep p chip1 j)) (snd (msleep p chip1 j))
         else (Expired, fst (msleep p chip1 j), snd (msleep p chip1 j)))"
  by pat_completeness auto
termination
  by (relation "measure (\<lambda>(p, stop, chip, j). stop - j)") (auto simp: msleep_def)

declare poll_status.simps [simp del]

text \<open>
  \<^verbatim>\<open>tpm_transmit(chip, buf, bufsiz)\<close> at time \<open>j\<close>: the return code, the buffer, the chip
  and the time afterwards; \<open>None\<close> when the call never returns.
\<close>

definition tpm_transmit ::
  "'hw platform \<Rightarrow> 'hw tpm_chip \<Rightarrow> nat \<Rightarrow> u8 list \<Rightarrow> nat \<Rightarrow>
     (int \<times> u8 list \<times> 'hw tpm_chip \<times> nat) option" where
  "tpm_transmit p chip j buf bufsiz =
     (let count = be32_to_cpu buf 2
      in if count = 0 then Some (- ENODATA, buf, chip, j)
         else if bufsiz < unat count then Some (- E2BIG, buf, chip, j)
         else case down (tpm_mutex chip) of
           None \<Rightarrow> None
         | Some m \<Rightarrow>
             let s = send (vendor chip) (hw chip) buf (unat count);
                 chip1 = chip\<lparr>tpm_mutex := m, hw := snd s,
                              calls := calls chip @ [Send buf (unat count)]\<rparr>
             in if fst s < 0
                then Some (fst s, buf, chip1\<lparr>tpm_mutex := up (tpm_mutex chip1)\<rparr>, j)
                else case poll_status p (j + 2 * 60 * HZ p) chip1 j of
                  (Complete, chip2, j2) \<Rightarrow>
                    let r = recv (vendor chip2) (hw chip2) buf bufsiz;
                        chip3 = chip2\<lparr>hw := snd (snd r), calls := calls chip2 @ [Recv bufsiz],
                                     data_position := 0\<rparr>
                    in Some (fst r, fst (snd r), chip3\<lparr>tpm_mutex := up (tpm_mutex chip3)\<rparr>, j2)
                | (Cancelled, chip2, j2) \<Rightarrow>
                    Some (- ECANCELED, buf, chip2\<lparr>tpm_mutex := up (tpm_mutex chip2)\<rparr>, j2)
                | (Expired, chip2, j2) \<Rightarrow>
                    let chip3 = chip2\<lparr>hw := cancel (vendor chip2) (hw chip2),
                                     calls := calls chip2 @ [Cancel]\<rparr>
                    in Some (- ETIME, buf, chip3\<lparr>tpm_mutex := up (tpm_mutex chip3)\<rparr>, j2))"

subsection \<open>The response hand-off: timer, write and read\<close>

text \<open>\<^verbatim>\<open>memset(buf, v, n)\<close> on a buffer of at least \<open>n\<close> bytes.\<close>

definition memset :: "u8 list \<Rightarrow> u8 \<Rightarrow> nat \<Rightarrow> u8 list" where
  "memset buf v n = replicate n v @ drop n buf"

text \<open>\<^verbatim>\<open>user_reader_timeout\<close>, the callback of \<^verbatim>\<open>user_read_timer\<close>.\<close>

definition user_reader_timeout :: "'hw tpm_chip \<Rightarrow> 'hw tpm_chip option" where
  "user_reader_timeout chip =
     (case down (buffer_mutex chip) of
        None \<Rightarrow> None
      | Some m \<Rightarrow>
          Some (chip\<lparr>data_pending := 0,
                     data_buffer := memset (data_buffer chip) 0 TPM_BUFSIZE,
                     buffer_mutex := up m\<rparr>))"

text \<open>An armed timer whose expiry time has come runs its callback, once.\<close>

definition run_timer :: "'hw tpm_chip \<Rightarrow> nat \<Rightarrow> 'hw tpm_chip option" where
  "run_timer chip j =
     (case user_read_timer chip of
        None \<Rightarrow> Some chip
      | Some t \<Rightarrow>
          if t \<le> j then user_reader_timeout (chip\<lparr>user_read_timer := None\<rparr>) else Some chip)"

text \<open>
  \<^verbatim>\<open>while (atomic_read(&chip->data_pending) != 0) msleep(TPM_TIMEOUT);\<close> at the head of
  \<^verbatim>\<open>tpm_write\<close>.  While the writer sleeps the timer may fire; nothing else clears the
  pending count in a single thread, so the loop need not end.
\<close>

partial_function (option) wait_data_pending ::
  "'hw platform \<Rightarrow> 'hw tpm_chip \<Rightarrow> nat \<Rightarrow> ('hw tpm_chip \<times> nat) option" where
  "wait_data_pending p chip j =
     (if data_pending chip = 0 then Some (chip, j)
      else Option.bind (run_timer (fst (msleep p chip j)) (snd (msleep p chip j)))
             (\<lambda>chip'. wait_data_pending p chip' (snd (msleep p chip j))))"

declare wait_data_pending.simps [code]

text \<open>
  \<^verbatim>\<open>copy_from_user(dst, src, n)\<close>: \<open>src\<close> is what can be read at the user's address; the
  copy faults when fewer than \<open>n\<close> bytes are there.
\<close>

definition copy_from_user :: "u8 list \<Rightarrow> u8 list \<Rightarrow> nat \<Rightarrow> u8 list option" where
  "copy_from_user dst src n = (if n \<le> length src then Some (take n src @ drop n dst) else None)"

text \<open>
  \<^verbatim>\<open>copy_to_user(dst, src, n)\<close>: \<open>room\<close> is the number of bytes that can be written at the
  user's address; on success the user holds the bytes copied.
\<close>

definition copy_to_user :: "nat \<Rightarrow> u8 list \<Rightarrow> u8 list option" where
  "copy_to_user room bytes = (if length bytes \<le> room then Some bytes else None)"

text \<open>
  \<^verbatim>\<open>tpm_write(file, buf, size, off)\<close> at time \<open>j\<close>, with \<open>sz\<close> for \<^verbatim>\<open>size\<close> and
  \<open>ubuf\<close> for the readable bytes at \<^verbatim>\<open>buf\<close>.  \<^verbatim>\<open>int in_size = size\<close> keeps the low 32 bits; a negative \<open>in_size\<close> is a
  count no user range holds, so that the copy faults.  The command buffer handed to
  \<^verbatim>\<open>tpm_transmit\<close> is \<^verbatim>\<open>chip->data_buffer\<close> itself.  What the transaction returns
  (a byte count or a negated error number) is taken to fit \<^verbatim>\<open>int out_size\<close>.
\<close>

definition tpm_write ::
  "'hw platform \<Rightarrow> 'hw tpm_chip \<Rightarrow> nat \<Rightarrow> u8 list \<Rightarrow> nat \<Rightarrow> (int \<times> 'hw tpm_chip \<times> nat) option" where
  "tpm_write p chip j ubuf sz =
     (case wait_data_pending p chip j of
        None \<Rightarrow> None
      | Some (chip0, j0) \<Rightarrow>
         (case down (buffer_mutex chip0) of
            None \<Rightarrow> None
          | Some m \<Rightarrow>
              let in_size0 = sint (word_of_nat sz :: 32 word);
                  in_size = (if int TPM_BUFSIZE < in_size0 then int TPM_BUFSIZE else in_size0)
              in case (if in_size < 0 then None
                       else copy_from_user (data_buffer chip0) ubuf (nat in_size)) of
                   None \<Rightarrow> Some (- EFAULT, chip0, j0)
                 | Some b \<Rightarrow>
                    (case tpm_transmit p (chip0\<lparr>buffer_mutex := m, data_buffer := b\<rparr>) j0 b TPM_BUFSIZE of
                       None \<Rightarrow> None
                     | Some (out_size, b', chip1, j1) \<Rightarrow>
                         Some (in_size,
                               chip1\<lparr>data_buffer := b', data_pending := out_size,
                                     buffer_mutex := up (buffer_mutex chip1),
                                     user_read_timer := Some (j1 + 60 * HZ p)\<rparr>,
                               j1))))"

text \<open>
  \<^verbatim>\<open>tpm_read(file, buf, size, off)\<close>, \<open>room\<close> being the writable bytes at \<^verbatim>\<open>buf\<close>: the
  return value, the bytes the user received, and the chip.
\<close>

definition tpm_read ::
  "'hw tpm_chip \<Rightarrow> nat \<Rightarrow> nat \<Rightarrow> (int \<times> u8 list \<times> 'hw tpm_chip) option" where
  "tpm_read chip room sz =
     (let chip0 = chip\<lparr>user_read_timer := None\<rparr>;
          pending = data_pending chip0
      in if 0 < pending then
           let position = data_position chip0;
               ret_size = (if int sz < pending then int sz else pending)
           in case down (buffer_mutex chip0) of
                None \<Rightarrow> None
              | Some m \<Rightarrow>
                 (case copy_to_user room
                         (take (nat ret_size) (drop (nat position) (data_buffer chip0))) of
                    None \<Rightarrow> Some (- EFAULT, [], chip0\<lparr>buffer_mutex := up m\<rparr>)
                  | Some bytes \<Rightarrow>
                      Some (ret_size, bytes,
                            chip0\<lparr>data_pending := data_pending chip0 - ret_size,
                                  data_position := position + ret_size,
                                  buffer_mutex := up m\<rparr>))
         else Some (pending, [], chip0))"

text \<open>
  \<^verbatim>\<open>tpm_open\<close> from the test of \<^verbatim>\<open>num_opens\<close> on, for the chip found; \<open>kbuf\<close> is what
  \<^verbatim>\<open>kmalloc(TPM_BUFSIZE)\<close> returns: nothing, or a buffer with whatever bytes it holds.
\<close>

definition tpm_open_chip :: "u8 list option \<Rightarrow> 'hw tpm_chip \<Rightarrow> int \<times> 'hw tpm_chip" where
  "tpm_open_chip kbuf chip =
     (if num_opens chip \<noteq> 0 then (- EBUSY, chip)
      else case kbuf of
        None \<Rightarrow> (- ENOMEM, chip\<lparr>data_buffer := []\<rparr>)
      | Some b \<Rightarrow> (0, chip\<lparr>num_opens := num_opens chip + 1, data_buffer := b,
                           data_pending := 0\<rparr>))"

text \<open>\<^verbatim>\<open>list_for_each_entry\<close> with a test that ends the walk: the place of the first hit.\<close>

fun list_for_each_entry :: "('a \<Rightarrow> bool) \<Rightarrow> 'a list \<Rightarrow> nat option" where
  "list_for_each_entry P [] = None"
| "list_for_each_entry P (pos # rest) =
     (if P pos then Some 0 else map_option Suc (list_for_each_entry P rest))"

definition tpm_open :: "u8 list option \<Rightarrow> int \<Rightarrow> 'hw driver \<Rightarrow> int \<times> 'hw driver" where
  "tpm_open kbuf minor drv =
     (case list_for_each_entry (\<lambda>pos. miscdev_minor (vendor pos) = minor) (tpm_chip_list drv) of
        None \<Rightarrow> (- ENODEV, drv)
      | Some k \<Rightarrow>
          let r = tpm_open_chip kbuf (tpm_chip_list drv ! k)
          in (fst r, drv\<lparr>tpm_chip_list := (tpm_chip_list drv)[k := snd r]\<rparr>))"

text \<open>\<^verbatim>\<open>tpm_release\<close>; the buffer is freed.\<close>

definition tpm_release :: "'hw tpm_chip \<Rightarrow> 'hw tpm_chip" where
  "tpm_release chip =
     chip\<lparr>num_opens := num_opens chip - 1, user_read_timer := None, data_pending := 0,
          data_buffer := []\<rparr>"

subsection \<open>Lookup and PCR read\<close>

definition tpm_chip_lookup :: "'hw platform \<Rightarrow> int \<Rightarrow> 'hw tpm_chip list \<Rightarrow> nat option" where
  "tpm_chip_lookup p chip_num chips =
     list_for_each_entry (\<lambda>pos. dev_num pos = chip_num \<or> chip_num = TPM_ANY_NUM p) chips"

definition pcrread :: "u8 list" where
  "pcrread = [0, 193, 0, 0, 0, 14, 0, 0, 0, 21, 0, 0, 0, 0]"

text \<open>
  \<^verbatim>\<open>tpm_pcr_read(chip_id, pcr_idx, res_buf, res_buf_size)\<close> at time \<open>j\<close>.  \<open>res_buf\<close> is
  \<open>None\<close> for a null pointer; \<open>stack\<close> is what the 30 bytes of the local array
  \<^verbatim>\<open>data\<close> hold before the template is copied in.  The result is the return code, the
  result buffer, the driver state and the time.
\<close>

definition tpm_pcr_read ::
  "'hw platform \<Rightarrow> 'hw driver \<Rightarrow> nat \<Rightarrow> u8 list \<Rightarrow> u32 \<Rightarrow> int \<Rightarrow> u8 list option \<Rightarrow> int \<Rightarrow>
     (int \<times> u8 list option \<times> 'hw driver \<times> nat) option" where
  "tpm_pcr_read p drv j stack chip_id pcr_idx res_buf res_buf_size =
     (let chip_num = sint (chip_id AND TPM_CHIP_NUM_MASK p)
      in if res_buf \<noteq> None \<and> res_buf_size < int TPM_DIGEST_SIZE
         then Some (- ENOSPC, res_buf, drv, j)
         else case tpm_chip_lookup p chip_num (tpm_chip_list drv) of
           None \<Rightarrow> Some (- ENODEV, res_buf, drv, j)
         | Some k \<Rightarrow>
             let data = put_be32 (pcrread @ drop (length pcrread) stack) 10 (word_of_int pcr_idx)
             in case tpm_transmit p (tpm_chip_list drv ! k) j data READ_PCR_RESULT_SIZE of
                  None \<Rightarrow> None
                | Some (rc0, data', chip', j') \<Rightarrow>
                    let rc = (if 0 < rc0 then sint (be32_to_cpu data' 6) else rc0);
                        drv' = drv\<lparr>tpm_chip_list := (tpm_chip_list drv)[k := chip']\<rparr>
                    in Some (rc,
                             (case res_buf of
                                None \<Rightarrow> None
                              | Some r \<Rightarrow>
                                  if rc = 0
                                  then Some (take TPM_DIGEST_SIZE (drop 10 data') @
                                             drop TPM_DIGEST_SIZE r)
                                  else Some r),
                             drv', j'))"

subsection \<open>Example devices\<close>

text \<open>
  Concrete surroundings at which the theorems below are instantiated: a platform with one
  tick per second whose sleeps last a minute, and vendor bindings over a device whose
  state is the number of status polls still to come before the response is ready.  Its
  \<open>recv\<close> refuses a buffer too small for the ten bytes of its response.
\<close>

definition demo_platform :: "nat platform" where
  "demo_platform =
     \<lparr>HZ = 1, TPM_ANY_NUM = 65535, TPM_CHIP_NUM_MASK = 65535,
      msleep_extra = (\<lambda>j. 59), hw_elapse = (\<lambda>h. h)\<rparr>"

definition demo_response :: "u8 list" where
  "demo_response = [0, 196, 0, 0, 0, 10, 0, 0, 0, 0]"

definition ready_vendor :: "nat tpm_vendor_specific" where
  "ready_vendor =
     \<lparr>req_complete_mask = 1, req_complete_val = 1, req_canceled = 2,
      recv = (\<lambda>h buf n. if n < 10 then (- 5, buf, h)
                          else (10, demo_response @ drop 10 buf, h)),
      send = (\<lambda>h buf n. (0, 1)),
      cancel = (\<lambda>h. 0),
      status = (\<lambda>h. (if h = 0 then 1 else 0, h - 1)),
      miscdev_minor = 0\<rparr>"


definition failing_vendor :: "int \<Rightarrow> nat tpm_vendor_specific" where
  "failing_vendor e = ready_vendor\<lparr>send := (\<lambda>h buf n. (e, h))\<rparr>"

definition empty_command :: "u8 list" where
  "empty_command = [0, 193, 0, 0, 0, 0, 0, 0, 0, 21]"

definition huge_command :: "u8 list" where
  "huge_command = [0, 193, 0, 0, 1, 0, 0, 0, 0, 21]"

definition pending_chip :: "nat tpm_chip" where
  "pending_chip =
     (fresh_chip 0 ready_vendor 0)\<lparr>num_opens := 1,
        data_buffer := demo_response @ replicate 2038 0, data_pending := 10,
        user_read_timer := Some 60\<rparr>"

text \<open>The chip of a vendor binding after registration data is set up and the device
  file has been opened, and the same chip with its command lying in the buffer.\<close>

definition opened_chip :: "nat tpm_vendor_specific \<Rightarrow> nat tpm_chip" where
  "opened_chip v = snd (tpm_open_chip (Some (replicate 2048 0)) (fresh_chip 0 v 0))"

definition command_buffer :: "u8 list" where
  "command_buffer = pcrread @ replicate 2034 0"

subsection \<open>Sequences of operations on the hand-off state\<close>

text \<open>
  The operations that touch a chip's buffer, pending count and cursor: a write, a read,
  the expiry of the timer, closing and opening the device file again, and a transaction
  started by another part of the kernel.  Each one carries its arguments; an operation
  that does not return ends the run.
\<close>

datatype handoff_op =
    Write nat "u8 list" nat
  | Read nat nat
  | Expire
  | Reopen "u8 list"
  | Transmit nat "u8 list" nat

fun handoff_step :: "'hw platform \<Rightarrow> 'hw tpm_chip \<Rightarrow> handoff_op \<Rightarrow> 'hw tpm_chip option" where
  "handoff_step p chip (Write j ubuf sz) =
     map_option (\<lambda>r. fst (snd r)) (tpm_write p chip j ubuf sz)"
| "handoff_step p chip (Read room sz) =
     map_option (\<lambda>r. snd (snd r)) (tpm_read chip room sz)"
| "handoff_step p chip Expire = user_reader_timeout chip"
| "handoff_step p chip (Reopen b) =
     (if fst (tpm_open_chip (Some b) (tpm_release chip)) = 0
      then Some (snd (tpm_open_chip (Some b) (tpm_release chip))) else None)"
| "handoff_step p chip (Transmit j buf bufsiz) =
     map_option (\<lambda>r. fst (snd (snd r))) (tpm_transmit p chip j buf bufsiz)"

fun handoff_run :: "'hw platform \<Rightarrow> 'hw tpm_chip \<Rightarrow> handoff_op list \<Rightarrow> 'hw tpm_chip option" where
  "handoff_run p chip [] = Some chip"
| "handoff_run p chip (x # xs) =
     (case handoff_step p chip x of None \<Rightarrow> None | Some chip' \<Rightarrow> handoff_run p chip' xs)"

text \<open>
  The invariant carried through a run: the vendor's \<^verbatim>\<open>recv\<close> never reports more bytes
  than the capacity it was given, the cursor lies in the buffer, and cursor plus pending
  count does not pass its end.
\<close>

definition handoff_inv :: "'hw tpm_chip \<Rightarrow> bool" where
  "handoff_inv chip \<longleftrightarrow>
     (\<forall>h buf n. fst (recv (vendor chip) h buf n) \<le> int n) \<and>
     0 \<le> data_position chip \<and> data_position chip \<le> int TPM_BUFSIZE \<and>
     data_position chip + data_pending chip \<le> int TPM_BUFSIZE"

text \<open>A registry with one chip of the well-behaved vendor, and that chip opened.\<close>

definition demo_driver :: "nat driver" where
  "demo_driver = snd (tpm_register_hardware_nopci True True 0 ready_vendor 0 driver_init)"

definition demo_chip :: "nat tpm_chip" where
  "demo_chip = snd (tpm_open_chip (Some (replicate 2048 0)) (hd (tpm_chip_list demo_driver)))"

text \<open>A registry whose only chip belongs to a vendor with a failing \<^verbatim>\<open>send\<close>.\<close>

definition failing_driver :: "int \<Rightarrow> nat driver" where
  "failing_driver e =
     snd (tpm_register_hardware_nopci True True 0 (failing_vendor e) 0 driver_init)"

text \<open>The bitmap after \<open>n\<close> registrations in a row on the empty registry: the first
  \<open>n\<close> bits of the eight words that are searched, lowest word first.\<close>

definition bitmap_after :: "nat \<Rightarrow> u32 list" where
  "bitmap_after n = map (\<lambda>i. mask (min 32 (n - 32 * i))) [0..<8] @ replicate 24 0"

text \<open>The chip of the vendor whose \<^verbatim>\<open>send\<close> fails with -5, as a write of the PCR read
  command at time 0 leaves it.\<close>

definition parked_chip :: "nat tpm_chip" where
  "parked_chip =
     (opened_chip (failing_vendor (- 5)))\<lparr>data_buffer := command_buffer, data_pending := - 5,
        user_read_timer := Some 60, calls := [Send command_buffer 14]\<rparr>"

text \<open>
  A vendor whose \<^verbatim>\<open>recv\<close> reports 5000 bytes whatever capacity it is given, a registry
  with one chip of that vendor, the chip opened, and the chip as a write of the PCR read
  command at time 0 leaves it.
\<close>

definition greedy_vendor :: "nat tpm_vendor_specific" where
  "greedy_vendor = ready_vendor\<lparr>recv := (\<lambda>h buf n. (5000, buf, h))\<rparr>"

definition greedy_driver :: "nat driver" where
  "greedy_driver = snd (tpm_register_hardware_nopci True True 0 greedy_vendor 0 driver_init)"

definition greedy_chip :: "nat tpm_chip" where
  "greedy_chip =
     snd (tpm_open_chip (Some (replicate 2048 0)) (hd (tpm_chip_list greedy_driver)))"

definition greedy_chip_written :: "nat tpm_chip" where
  "greedy_chip_written =
     greedy_chip\<lparr>data_buffer := command_buffer, data_pending := 5000,
        user_read_timer := Some 120,
        calls := [Send command_buffer 14, Status, Status, Recv TPM_BUFSIZE]\<rparr>"

text \<open>The example chip after a write, a read of 4 of the 10 response bytes, and closing
  and opening the device file again.\<close>

definition reopened_chip :: "nat tpm_chip" where
  "reopened_chip =
     demo_chip\<lparr>data_buffer := replicate 2048 0, data_position := 4,
        calls := [Send command_buffer 14, Status, Status, Recv TPM_BUFSIZE]\<rparr>"

section \<open>Properties\<close>

subsection \<open>The transaction engine\<close>


lemma be32_to_cpu_empty_command: "be32_to_cpu empty_command 2 = 0"
  by (simp add: be32_to_cpu_def empty_command_def)

lemma be32_to_cpu_huge_command: "be32_to_cpu huge_command 2 = 256"
  by (simp add: be32_to_cpu_def huge_command_def)

text \<open>
  C4.  A command whose length field (four bytes, big-endian, at offset 2) is zero is
  answered with \<^verbatim>\<open>-ENODATA\<close>, and one whose length field exceeds the capacity with
  \<^verbatim>\<open>-E2BIG\<close>.  In both cases the call returns at once with the buffer, the chip (its
  device state and its log of vendor calls included) and the time as they were: no
  vendor callback has run and nothing was changed.
\<close>

theorem tpm_transmit_rejects_bad_length:
  assumes "6 \<le> length buf"
  shows "(be32_to_cpu buf 2 = 0 \<longrightarrow>
            tpm_transmit p chip j buf bufsiz = Some (- ENODATA, buf, chip, j)) \<and>
         (bufsiz < unat (be32_to_cpu buf 2) \<longrightarrow>
            tpm_transmit p chip j buf bufsiz = Some (- E2BIG, buf, chip, j))"
  by (auto simp: tpm_transmit_def Let_def)

theorem tpm_transmit_rejects_bad_length_witness:
  "6 \<le> length empty_command \<and> be32_to_cpu empty_command 2 = 0 \<and>
   tpm_transmit demo_platform (fresh_chip 0 ready_vendor 0) 0 empty_command 30 =
     Some (- ENODATA, empty_command, fresh_chip 0 ready_vendor 0, 0) \<and>
   6 \<le> length huge_command \<and> 30 < unat (be32_to_cpu huge_command 2) \<and>
   tpm_transmit demo_platform (fresh_chip 0 ready_vendor 0) 0 huge_command 30 =
     Some (- E2BIG, huge_command, fresh_chip 0 ready_vendor 0, 0)"
proof -
  have l1: "6 \<le> length empty_command" by (simp add: empty_command_def)
  have l2: "6 \<le> length huge_command" by (simp add: huge_command_def)
  have big: "30 < unat (be32_to_cpu huge_command 2)"
    by (simp add: be32_to_cpu_huge_command)
  show ?thesis
    using tpm_transmit_rejects_bad_length [OF l1, where p = demo_platform
        and chip = "fresh_chip 0 ready_vendor 0" and j = 0 and bufsiz = 30]
      tpm_transmit_rejects_bad_length [OF l2, where p = demo_platform
        and chip = "fresh_chip 0 ready_vendor 0" and j = 0 and bufsiz = 30]
      l1 l2 big be32_to_cpu_empty_command
    by simp
qed

text \<open>
  Whatever ends the polling loop, it has touched the device state and the call log only,
  and each round has added one status call.
\<close>

lemma poll_status_frame:
  "\<exists>h' n. fst (snd (poll_status p stop chip j)) =
            chip\<lparr>hw := h', calls := calls chip @ replicate (Suc n) Status\<rparr>"
proof (induction p stop chip j rule: poll_status.induct)
  case (1 p stop chip j)
  let ?r = "status (vendor chip) (hw chip)"
  let ?c1 = "chip\<lparr>hw := snd ?r, calls := calls chip @ [Status]\<rparr>"
  show ?case
  proof (cases "fst ?r AND req_complete_mask (vendor chip) = req_complete_val (vendor chip)")
    case True
    then have "fst (snd (poll_status p stop chip j)) = ?c1"
      by (subst poll_status.simps) (simp add: Let_def)
    then show ?thesis by (intro exI[of _ "snd ?r"] exI[of _ 0]) simp
  next
    case nc: False
    show ?thesis
    proof (cases "fst ?r = req_canceled (vendor chip)")
      case True
      with nc have "fst (snd (poll_status p stop chip j)) = ?c1"
        by (subst poll_status.simps) (simp add: Let_def)
      then show ?thesis by (intro exI[of _ "snd ?r"] exI[of _ 0]) simp
    next
      case ncc: False
      show ?thesis
      proof (cases "snd (msleep p ?c1 j) < stop")
        case True
        from "1.IH"[OF refl refl nc ncc True]
        obtain h' n where ih:
          "fst (snd (poll_status p stop (fst (msleep p ?c1 j)) (snd (msleep p ?c1 j)))) =
           (fst (msleep p ?c1 j))\<lparr>hw := h',
              calls := calls (fst (msleep p ?c1 j)) @ replicate (Suc n) Status\<rparr>"
          by blast
        have "poll_status p stop chip j =
              poll_status p stop (fst (msleep p ?c1 j)) (snd (msleep p ?c1 j))"
          using nc ncc True by (subst poll_status.simps) (simp add: Let_def)
        with ih show ?thesis
          by (intro exI[of _ h'] exI[of _ "Suc n"]) (simp add: msleep_def replicate_append_same)
      next
        case False
        with nc ncc have "fst (snd (poll_status p stop chip j)) = fst (msleep p ?c1 j)"
          by (subst poll_status.simps) (simp add: Let_def)
        then show ?thesis
          by (intro exI[of _ "hw_elapse p (snd ?r)"] exI[of _ 0]) (simp add: msleep_def)
      qed
    qed
  qed
qed




subsection \<open>The device registry\<close>

lemma search_bits_find: "search_bits w js = List.find (\<lambda>j. \<not> bit w j) js"
  by (induction js) (simp_all add: and_exp_eq_0_iff_not_bit)

lemma search_bits_mask:
  assumes "k < 32"
  shows "search_bits (mask k) [0..<8 * 4] = Some k"
proof -
  have "List.find (\<lambda>j. \<not> bit (mask k :: u32) j) [0..<32] = Some k"
    unfolding find_Some_iff using assms
    by (intro exI[of _ k]) (simp add: bit_mask_iff)
  then show ?thesis by (simp add: search_bits_find)
qed

lemma search_bits_full: "search_bits (mask 32) [0..<8 * 4] = None"
  by (simp add: search_bits_find find_None_iff bit_mask_iff)

lemma dev_num_search_first_word:
  assumes "k < 32"
  shows "dev_num_search (mask k # ms) = Some (0, k)"
  using search_bits_mask[OF assms]
  by (simp add: dev_num_search_def TPM_NUM_MASK_ENTRIES_def TPM_NUM_DEVICES_def upt_rec)

lemma dev_num_search_second_word:
  "dev_num_search (mask 32 # 0 # ms) = Some (1, 0)"
  using search_bits_mask[of 0] search_bits_full
  by (simp add: dev_num_search_def TPM_NUM_MASK_ENTRIES_def TPM_NUM_DEVICES_def upt_rec)

lemma mask_Suc_or: "(mask k :: u32) OR 2 ^ k = mask (Suc k)"
  by (simp add: mask_Suc_exp or.commute)

text \<open>While the first word of the bitmap has a clear bit, a registration takes the lowest
  one and numbers the chip after it.\<close>

lemma register_first_word:
  assumes "k < 32" and "dev_mask drv = mask k # ms"
  shows "tpm_register_hardware_nopci True True d entry h drv =
           (0, drv\<lparr>tpm_chip_list :=
                      (fresh_chip d (entry\<lparr>miscdev_minor :=
                          (if k = 0 then TPM_MINOR else MISC_DYNAMIC_MINOR)\<rparr>) h)\<lparr>dev_num := int k\<rparr>
                      # tpm_chip_list drv,
                    dev_mask := mask (Suc k) # ms\<rparr>)"
  using assms dev_num_search_first_word[OF assms(1), of ms]
  by (simp add: tpm_register_hardware_nopci_def Let_def mask_Suc_or)

lemma register_all_first_word:
  assumes "k + length ds \<le> 32" and "dev_mask drv = mask k # ms"
  shows "fst (register_all ds entry h drv) = replicate (length ds) 0 \<and>
         dev_mask (snd (register_all ds entry h drv)) = mask (k + length ds) # ms \<and>
         map dev_num (tpm_chip_list (snd (register_all ds entry h drv))) =
           rev (map int [k..<k + length ds]) @ map dev_num (tpm_chip_list drv) \<and>
         map dev (tpm_chip_list (snd (register_all ds entry h drv))) =
           rev ds @ map dev (tpm_chip_list drv)"
  using assms
proof (induction ds arbitrary: k drv)
  case Nil
  then show ?case by simp
next
  case (Cons d ds)
  from Cons.prems have k: "k < 32" by simp
  let ?drv1 = "snd (tpm_register_hardware_nopci True True d entry h drv)"
  have step: "fst (tpm_register_hardware_nopci True True d entry h drv) = 0"
    and m1: "dev_mask ?drv1 = mask (Suc k) # ms"
    and l1: "map dev_num (tpm_chip_list ?drv1) = int k # map dev_num (tpm_chip_list drv)"
    and d1: "map dev (tpm_chip_list ?drv1) = d # map dev (tpm_chip_list drv)"
    using register_first_word[OF k Cons.prems(2), of d entry h] by (simp_all add: fresh_chip_def)
  from Cons.prems have "Suc k + length ds \<le> 32" by simp
  moreover have "[k..<k + length (d # ds)] = k # [Suc k..<Suc k + length ds]"
    using upt_conv_Cons[of k "Suc (k + length ds)"] by (simp del: upt_Suc)
  ultimately show ?case
    using Cons.IH[of "Suc k" ?drv1] m1 step l1 d1
    by (simp add: split_def Let_def del: upt_Suc)
qed

lemma register_all_append:
  "register_all (xs @ ys) entry h drv =
     (fst (register_all xs entry h drv) @
        fst (register_all ys entry h (snd (register_all xs entry h drv))),
      snd (register_all ys entry h (snd (register_all xs entry h drv))))"
  by (induction xs arbitrary: drv) (simp_all add: split_def Let_def)

text \<open>
  C1, at the input where the code leaves the claim.  Thirty-three registrations in a
  row on the empty registry all return 0.  The first thirty-two chips get the numbers 0
  to 31 from word 0 of the bitmap; the thirty-third takes bit 0 of word 1 and is numbered
  \<^verbatim>\<open>1 * TPM_NUM_MASK_ENTRIES + 0 = 8\<close>, the number of a chip that is still registered:
  the device numbers of the live chips are not pairwise distinct.
\<close>

theorem register_33_reuses_live_number:
  "fst (register_all [0..<33] entry h driver_init) = replicate 33 0 \<and>
   map dev_num (tpm_chip_list (snd (register_all [0..<33] entry h driver_init))) =
     8 # rev (map int [0..<32]) \<and>
   \<not> distinct (map dev_num (tpm_chip_list (snd (register_all [0..<33] entry h driver_init))))"
proof -
  let ?d32 = "snd (register_all [0..<32] entry h (driver_init :: 'a driver))"
  have init: "dev_mask (driver_init :: 'a driver) = mask 0 # replicate 31 0"
    by (simp add: driver_init_def numeral_eq_Suc)
  from register_all_first_word[of 0 "[0..<32]" driver_init "replicate 31 0" entry h, OF _ init]
  have rcs: "fst (register_all [0..<32] entry h (driver_init :: 'a driver)) = replicate 32 0"
    and m: "dev_mask ?d32 = mask 32 # replicate 31 0"
    and l: "map dev_num (tpm_chip_list ?d32) = rev (map int [0..<32])"
    by (simp_all add: driver_init_def)
  have m': "dev_mask ?d32 = mask 32 # 0 # replicate 30 0"
    using m by (simp add: numeral_eq_Suc)
  have last: "tpm_register_hardware_nopci True True 32 entry h ?d32 =
     (0, ?d32\<lparr>tpm_chip_list :=
                 (fresh_chip 32 (entry\<lparr>miscdev_minor := MISC_DYNAMIC_MINOR\<rparr>) h)\<lparr>dev_num := 8\<rparr>
                 # tpm_chip_list ?d32,
               dev_mask := mask 32 # 1 # replicate 30 0\<rparr>)"
    using dev_num_search_second_word[of "replicate 30 0"] m'
    by (simp add: tpm_register_hardware_nopci_def Let_def TPM_NUM_MASK_ENTRIES_def
        TPM_NUM_DEVICES_def)
  have split: "[0..<33] = [0..<32] @ [32]" by (simp add: upt_rec)
  have r33: "replicate 33 (0::int) = replicate 32 0 @ replicate 1 0"
    unfolding replicate_add[symmetric] by simp
  have nums: "map dev_num (tpm_chip_list (snd (register_all [0..<33] entry h
                (driver_init :: 'a driver)))) = 8 # rev (map int [0..<32])"
    unfolding split register_all_append using l last by (simp add: Let_def)
  have "(8::int) \<in> int ` {0..<32}" by (rule image_eqI[of _ _ 8]) simp_all
  then have dup: "\<not> distinct (8 # rev (map int [0..<32]))" by simp
  have "fst (register_all [0..<33] entry h (driver_init :: 'a driver)) = replicate 33 0"
    unfolding split register_all_append r33 using rcs last by (simp add: Let_def)
  with nums dup show ?thesis by simp
qed

text \<open>
  C2, at the input where the code leaves the claim.  Two chips are registered, for the
  devices 0 and 1; they get the numbers 0 and 1 and the bitmap starts with the word 3.
  Removing the second chip and-s that word with \<^verbatim>\<open>!(1 << 1)\<close>, which is 0: the whole
  word is cleared, bit 0 with it, although chip 0 is still registered.  The next
  registration is therefore given the number 0 again.
\<close>

theorem remove_clears_whole_word:
  "map dev_num (tpm_chip_list (snd (register_all [0, 1] entry h driver_init))) = [1, 0] \<and>
   dev_mask (snd (register_all [0, 1] entry h driver_init)) = 3 # replicate 31 0 \<and>
   map dev_num (tpm_chip_list
      (tpm_remove_hardware 1 (snd (register_all [0, 1] entry h driver_init)))) = [0] \<and>
   dev_mask (tpm_remove_hardware 1 (snd (register_all [0, 1] entry h driver_init))) =
     replicate 32 0 \<and>
   map dev_num (tpm_chip_list (snd (tpm_register_hardware_nopci True True 2 entry h
      (tpm_remove_hardware 1 (snd (register_all [0, 1] entry h driver_init)))))) = [0, 0]"
proof -
  let ?c0 = "(fresh_chip 0 (entry\<lparr>miscdev_minor := TPM_MINOR\<rparr>) h)\<lparr>dev_num := 0\<rparr>"
  let ?c1 = "(fresh_chip 1 (entry\<lparr>miscdev_minor := MISC_DYNAMIC_MINOR\<rparr>) h)\<lparr>dev_num := 1\<rparr>"
  let ?d1 = "\<lparr>tpm_chip_list = [?c0], dev_mask = mask 1 # replicate 31 0\<rparr>"
  let ?d2 = "\<lparr>tpm_chip_list = [?c1, ?c0], dev_mask = mask 2 # replicate 31 0\<rparr>"
  let ?d3 = "\<lparr>tpm_chip_list = [?c0], dev_mask = mask 0 # replicate 31 0\<rparr>"
  have init: "(driver_init :: 'a driver) =
              \<lparr>tpm_chip_list = [], dev_mask = mask 0 # replicate 31 0\<rparr>"
    by (simp add: driver_init_def numeral_eq_Suc)
  have s1: "tpm_register_hardware_nopci True True 0 entry h driver_init = (0, ?d1)"
    unfolding init
    using register_first_word[of 0 "\<lparr>tpm_chip_list = [], dev_mask = mask 0 # replicate 31 0\<rparr>"
        "replicate 31 0" 0 entry h]
    by simp
  have s2: "tpm_register_hardware_nopci True True 1 entry h ?d1 = (0, ?d2)"
    using register_first_word[of 1 ?d1 "replicate 31 0" 1 entry h] by (simp add: numeral_2_eq_2)
  have reg: "snd (register_all [0, 1] entry h driver_init) = ?d2"
    using s1 s2 by (simp add: Let_def)
  have rem: "tpm_remove_hardware 1 ?d2 = ?d3"
    by (simp add: tpm_remove_hardware_def fresh_chip_def Let_def TPM_NUM_MASK_ENTRIES_def
        TPM_NUM_DEVICES_def c_lnot_def)
  have s3: "map dev_num (tpm_chip_list
              (snd (tpm_register_hardware_nopci True True 2 entry h ?d3))) = [0, 0]"
    using register_first_word[of 0 ?d3 "replicate 31 0" 2 entry h]
    by (simp add: fresh_chip_def)
  have m2: "(mask 2 :: u32) = 3" by (simp add: mask_eq_exp_minus_1)
  have z: "(mask 0 :: u32) # replicate 31 0 = replicate 32 0" by (simp add: numeral_eq_Suc)
  show ?thesis
    unfolding reg rem using s3 m2 z by (simp add: fresh_chip_def)
qed

subsection \<open>Filling the bitmap\<close>

lemma search_words_skip:
  assumes "\<forall>i \<in> set is1. search_bits (m ! i) [0..<8 * 4] = None"
  shows "search_words m (is1 @ is2) = search_words m is2"
  using assms by (induction is1) simp_all

lemma upt_split_at:
  assumes "q < n"
  shows "[0..<n] = [0..<q] @ q # [Suc q..<n]"
proof -
  have "[0..<n] = [0..<q] @ [q..<n]"
    using assms upt_add_eq_append[of 0 q "n - q"] by simp
  then show ?thesis using assms by (simp add: upt_conv_Cons)
qed

lemma bitmap_after_nth:
  assumes "i < 8"
  shows "bitmap_after n ! i = mask (min 32 (n - 32 * i))"
  using assms by (simp add: bitmap_after_def nth_append)

lemma length_bitmap_after: "length (bitmap_after n) = 32"
  by (simp add: bitmap_after_def)

lemma bitmap_after_0: "bitmap_after 0 = replicate 32 0"
proof -
  have "map (\<lambda>i. 0 :: u32) [0..<8] = replicate 8 0" by (simp add: map_replicate_const)
  then have "bitmap_after 0 = replicate 8 0 @ replicate 24 0" by (simp add: bitmap_after_def)
  then show ?thesis unfolding replicate_add[symmetric] by simp
qed

lemma dev_num_search_bitmap_after:
  assumes "n < 256"
  shows "dev_num_search (bitmap_after n) = Some (n div 32, n mod 32)"
proof -
  let ?q = "n div 32"
  have q: "?q < 8" using assms by simp
  have split: "[0..<8] = [0..<?q] @ ?q # [Suc ?q..<8]"
    by (rule upt_split_at[OF q])
  have full: "\<forall>i \<in> set [0..<?q]. search_bits (bitmap_after n ! i) [0..<8 * 4] = None"
  proof
    fix i assume "i \<in> set [0..<?q]"
    then have i: "i < ?q" by simp
    then have "32 * i + 32 \<le> n" by simp
    then have "min 32 (n - 32 * i) = 32" by simp
    with i q show "search_bits (bitmap_after n ! i) [0..<8 * 4] = None"
      by (simp add: bitmap_after_nth search_bits_full[simplified] del: upt_Suc)
  qed
  have "min 32 (n - 32 * ?q) = n mod 32"
    by (simp add: minus_mult_div_eq_mod)
  then have here: "search_bits (bitmap_after n ! ?q) [0..<8 * 4] = Some (n mod 32)"
    using q search_bits_mask[of "n mod 32"] by (simp add: bitmap_after_nth del: upt_Suc)
  have "dev_num_search (bitmap_after n) =
        search_words (bitmap_after n) ([0..<?q] @ ?q # [Suc ?q..<8])"
    using split by (simp add: dev_num_search_def TPM_NUM_MASK_ENTRIES_def TPM_NUM_DEVICES_def)
  also have "\<dots> = search_words (bitmap_after n) (?q # [Suc ?q..<8])"
    by (rule search_words_skip[OF full])
  also have "\<dots> = Some (?q, n mod 32)"
    using here by (simp del: upt_Suc)
  finally show ?thesis .
qed

lemma dev_num_search_full: "dev_num_search (bitmap_after 256) = None"
proof -
  have "\<forall>i \<in> set [0..<8]. search_bits (bitmap_after 256 ! i) [0..<8 * 4] = None"
  proof
    fix i assume "i \<in> set [0..<8]"
    then have i: "i < 8" by simp
    then have "min 32 (256 - 32 * i) = 32" by simp
    with i show "search_bits (bitmap_after 256 ! i) [0..<8 * 4] = None"
      by (simp add: bitmap_after_nth search_bits_full[simplified] del: upt_Suc)
  qed
  from search_words_skip[OF this, of "[]"] show ?thesis
    by (simp add: dev_num_search_def TPM_NUM_MASK_ENTRIES_def TPM_NUM_DEVICES_def)
qed

lemma bitmap_after_Suc:
  assumes "n < 256"
  shows "(bitmap_after n)[n div 32 := bitmap_after n ! (n div 32) OR 2 ^ (n mod 32)] =
         bitmap_after (Suc n)"
proof (rule nth_equalityI)
  show "length ((bitmap_after n)[n div 32 := bitmap_after n ! (n div 32) OR 2 ^ (n mod 32)]) =
        length (bitmap_after (Suc n))"
    by (simp add: length_bitmap_after)
next
  fix i
  assume "i < length ((bitmap_after n)[n div 32 := bitmap_after n ! (n div 32) OR 2 ^ (n mod 32)])"
  then have i32: "i < 32" by (simp add: length_bitmap_after)
  let ?q = "n div 32"
  have q: "?q < 8" using assms by simp
  show "(bitmap_after n)[?q := bitmap_after n ! ?q OR 2 ^ (n mod 32)] ! i =
        bitmap_after (Suc n) ! i"
  proof (cases "i = ?q")
    case True
    have a: "min 32 (n - 32 * ?q) = n mod 32" by (simp add: minus_mult_div_eq_mod)
    have "32 * ?q \<le> n" by simp
    then have "Suc n - 32 * ?q = Suc (n - 32 * ?q)" by (rule Suc_diff_le)
    also have "n - 32 * ?q = n mod 32" by (simp add: minus_mult_div_eq_mod)
    finally have "Suc n - 32 * ?q = Suc (n mod 32)" .
    then have b: "min 32 (Suc n - 32 * ?q) = Suc (n mod 32)"
      by (simp add: Suc_leI)
    show ?thesis
      using True q a b
      by (simp add: length_bitmap_after bitmap_after_nth mask_Suc_or)
  next
    case False
    show ?thesis
    proof (cases "i < 8")
      case True
      have "min 32 (n - 32 * i) = min 32 (Suc n - 32 * i)"
      proof (cases "i < ?q")
        case True
        then have "32 * i + 32 \<le> n" by simp
        then show ?thesis by simp
      next
        case False
        with \<open>i \<noteq> ?q\<close> have "?q < i" by simp
        then have "Suc n \<le> 32 * i" by simp
        then show ?thesis by simp
      qed
      with True False show ?thesis
        by (simp add: bitmap_after_nth)
    next
      case False
      with i32 \<open>i \<noteq> ?q\<close> show ?thesis
        by (simp add: bitmap_after_def nth_append)
    qed
  qed
qed

text \<open>From the bitmap after \<open>n < 256\<close> registrations the next registration succeeds,
  takes bit \<open>n mod 32\<close> of word \<open>n div 32\<close> and numbers the chip
  \<open>(n div 32) * 8 + n mod 32\<close>.\<close>

lemma register_bitmap_after:
  assumes "n < 256" and "dev_mask drv = bitmap_after n"
  shows "tpm_register_hardware_nopci True True d entry h drv =
           (0, drv\<lparr>tpm_chip_list :=
                      (fresh_chip d (entry\<lparr>miscdev_minor :=
                          (if n = 0 then TPM_MINOR else MISC_DYNAMIC_MINOR)\<rparr>) h)
                        \<lparr>dev_num := int ((n div 32) * 8 + n mod 32)\<rparr>
                      # tpm_chip_list drv,
                    dev_mask := bitmap_after (Suc n)\<rparr>)"
proof -
  have z: "(int (n div 32) * 8 + int (n mod 32) = 0) = (n = 0)"
  proof
    assume "int (n div 32) * 8 + int (n mod 32) = 0"
    then have "n div 32 = 0" and "n mod 32 = 0" by linarith+
    moreover have "n = 32 * (n div 32) + n mod 32" by simp
    ultimately show "n = 0" by simp
  next
    assume "n = 0"
    then show "int (n div 32) * 8 + int (n mod 32) = 0" by simp
  qed
  show ?thesis
    using assms dev_num_search_bitmap_after[OF assms(1)] bitmap_after_Suc[OF assms(1)] z
    by (simp add: tpm_register_hardware_nopci_def Let_def TPM_NUM_MASK_ENTRIES_def
        TPM_NUM_DEVICES_def)
qed

lemma register_all_bitmap_after:
  assumes "k + length ds \<le> 256" and "dev_mask drv = bitmap_after k"
  shows "fst (register_all ds entry h drv) = replicate (length ds) 0 \<and>
         dev_mask (snd (register_all ds entry h drv)) = bitmap_after (k + length ds) \<and>
         map dev_num (tpm_chip_list (snd (register_all ds entry h drv))) =
           rev (map (\<lambda>n. int ((n div 32) * 8 + n mod 32)) [k..<k + length ds]) @
           map dev_num (tpm_chip_list drv)"
  using assms
proof (induction ds arbitrary: k drv)
  case Nil
  then show ?case by simp
next
  case (Cons d ds)
  from Cons.prems have k: "k < 256" by simp
  let ?drv1 = "snd (tpm_register_hardware_nopci True True d entry h drv)"
  have step: "fst (tpm_register_hardware_nopci True True d entry h drv) = 0"
    and m1: "dev_mask ?drv1 = bitmap_after (Suc k)"
    and l1: "map dev_num (tpm_chip_list ?drv1) =
               int ((k div 32) * 8 + k mod 32) # map dev_num (tpm_chip_list drv)"
    using register_bitmap_after[OF k Cons.prems(2), of d entry h] by (simp_all add: fresh_chip_def)
  from Cons.prems have "Suc k + length ds \<le> 256" by simp
  moreover have "[k..<k + length (d # ds)] = k # [Suc k..<Suc k + length ds]"
    using upt_conv_Cons[of k "Suc (k + length ds)"] by (simp del: upt_Suc)
  ultimately show ?case
    using Cons.IH[of "Suc k" ?drv1] m1 step l1
    by (simp add: split_def Let_def del: upt_Suc)
qed

text \<open>
  What registration does keep: 256 registrations in a row on the empty registry all
  succeed, every device number lies between 0 and 87, and a 257th registration returns
  \<^verbatim>\<open>-ENODEV\<close> and leaves the registry, the bitmap included, as it was.
\<close>

lemma register_256_then_full:
  "fst (register_all [0..<256] entry h driver_init) = replicate 256 0 \<and>
   (\<forall>n \<in> set (map dev_num (tpm_chip_list (snd (register_all [0..<256] entry h driver_init)))).
      0 \<le> n \<and> n \<le> 87) \<and>
   tpm_register_hardware_nopci True True d entry h
       (snd (register_all [0..<256] entry h driver_init)) =
     (- ENODEV, snd (register_all [0..<256] entry h driver_init))"
proof -
  let ?drv = "snd (register_all [0..<256] entry h (driver_init :: 'a driver))"
  have init: "dev_mask (driver_init :: 'a driver) = bitmap_after 0"
    by (simp add: driver_init_def bitmap_after_0)
  have len: "0 + length [0..<256] \<le> 256" by simp
  from register_all_bitmap_after[of 0 "[0..<256]" driver_init entry h, OF len init]
  have rcs: "fst (register_all [0..<256] entry h (driver_init :: 'a driver)) = replicate 256 0"
    and m: "dev_mask ?drv = bitmap_after 256"
    and l: "map dev_num (tpm_chip_list ?drv) =
              rev (map (\<lambda>n. int ((n div 32) * 8 + n mod 32)) [0..<256])"
    by (simp_all add: driver_init_def del: upt_Suc)
  have range: "\<forall>n \<in> set (map dev_num (tpm_chip_list ?drv)). 0 \<le> n \<and> n \<le> 87"
  proof
    fix x assume "x \<in> set (map dev_num (tpm_chip_list ?drv))"
    then have "x \<in> (\<lambda>n. int ((n div 32) * 8 + n mod 32)) ` {0..<256}"
      unfolding l set_rev set_map set_upt .
    then obtain n where n: "n < 256" and x: "x = int ((n div 32) * 8 + n mod 32)"
      by (auto simp del: of_nat_add of_nat_mult)
    from n have "n div 32 \<le> 7" by simp
    moreover have "n mod 32 \<le> 31" by simp
    ultimately have "(n div 32) * 8 + n mod 32 \<le> 87" by linarith
    with x show "0 \<le> x \<and> x \<le> 87" by simp
  qed
  have full: "tpm_register_hardware_nopci True True d entry h ?drv = (- ENODEV, ?drv)"
    using m dev_num_search_full by (simp add: tpm_register_hardware_nopci_def)
  show ?thesis
    by (intro conjI) (rule rcs, rule range, rule full)
qed

subsection \<open>Reading the response and the expiry timer\<close>

lemma tpm_read_pending:
  assumes pend: "0 < data_pending chip"
    and free: "0 < buffer_mutex chip"
    and room: "min sz (nat (data_pending chip)) \<le> room"
    and pos: "0 \<le> data_position chip"
    and inside: "data_position chip + data_pending chip \<le> int (length (data_buffer chip))"
  shows "tpm_read chip room sz =
           Some (int (min sz (nat (data_pending chip))),
                 take (min sz (nat (data_pending chip)))
                      (drop (nat (data_position chip)) (data_buffer chip)),
                 chip\<lparr>user_read_timer := None,
                      data_pending := data_pending chip - int (min sz (nat (data_pending chip))),
                      data_position :=
                        data_position chip + int (min sz (nat (data_pending chip)))\<rparr>) \<and>
         length (take (min sz (nat (data_pending chip)))
                      (drop (nat (data_position chip)) (data_buffer chip))) =
           min sz (nat (data_pending chip))"
proof -
  let ?n = "min sz (nat (data_pending chip))"
  have len: "length (take ?n (drop (nat (data_position chip)) (data_buffer chip))) = ?n"
    using pend pos inside by (simp add: min_def) linarith
  have m: "up (buffer_mutex chip - 1) = buffer_mutex chip"
    using free by (simp add: up_def)
  show ?thesis
  proof (cases "int sz < data_pending chip")
    case True
    then have n: "?n = sz" by (auto simp: min_def)
    from len room
    have "length (take sz (drop (nat (data_position chip)) (data_buffer chip))) \<le> room"
      unfolding n by simp
    with True pend free m len show ?thesis
      unfolding n
      by (simp add: tpm_read_def Let_def down_def copy_to_user_def del: length_take)
  next
    case False
    then have n: "?n = nat (data_pending chip)" using pend by (auto simp: min_def)
    from len room
    have "length (take (nat (data_pending chip))
             (drop (nat (data_position chip)) (data_buffer chip))) \<le> room"
      unfolding n by simp
    with False pend free m len show ?thesis
      unfolding n
      by (simp add: tpm_read_def Let_def down_def copy_to_user_def del: length_take)
  qed
qed

lemma tpm_read_idle:
  assumes "data_pending chip = 0"
  shows "tpm_read chip room sz = Some (0, [], chip\<lparr>user_read_timer := None\<rparr>)"
  using assms by (simp add: tpm_read_def Let_def)

lemma user_reader_timeout_free:
  assumes "0 < buffer_mutex chip"
  shows "user_reader_timeout chip =
           Some (chip\<lparr>data_pending := 0,
                      data_buffer := replicate TPM_BUFSIZE 0 @ drop TPM_BUFSIZE (data_buffer chip)\<rparr>)"
  using assms by (simp add: user_reader_timeout_def down_def up_def memset_def)

text \<open>
  C7.  Let a response of \<open>pending > 0\<close> bytes wait in the buffer at the cursor, inside the
  buffer, with the buffer lock free and the user's destination writable.  A read of up
  to \<open>sz\<close> bytes returns \<open>min sz pending\<close>, hands out exactly that many bytes of the
  buffer from the cursor on, lowers the pending count and advances the cursor by that
  amount.  Hence two reads of which the first asks for \<open>k\<close> bytes, \<open>0 < k < pending\<close>,
  and the second for at least the rest, return the first \<open>k\<close> bytes and then the
  remaining ones, which together are the response, and a third read returns 0 and no
  bytes.
\<close>

theorem tpm_read_hands_out_response:
  assumes pend: "0 < data_pending chip"
    and free: "0 < buffer_mutex chip"
    and pos: "0 \<le> data_position chip"
    and inside: "data_position chip + data_pending chip \<le> int (length (data_buffer chip))"
    and room: "nat (data_pending chip) \<le> room"
  shows "tpm_read chip room sz =
           Some (int (min sz (nat (data_pending chip))),
                 take (min sz (nat (data_pending chip)))
                      (drop (nat (data_position chip)) (data_buffer chip)),
                 chip\<lparr>user_read_timer := None,
                      data_pending := data_pending chip - int (min sz (nat (data_pending chip))),
                      data_position :=
                        data_position chip + int (min sz (nat (data_pending chip)))\<rparr>) \<and>
         length (take (min sz (nat (data_pending chip)))
                      (drop (nat (data_position chip)) (data_buffer chip))) =
           min sz (nat (data_pending chip)) \<and>
         (0 < k \<and> k < nat (data_pending chip) \<and> nat (data_pending chip) - k \<le> sz2 \<longrightarrow>
            (\<exists>r1 c1 r2 c2.
               tpm_read chip room k = Some (int k, r1, c1) \<and>
               tpm_read c1 room sz2 = Some (data_pending chip - int k, r2, c2) \<and>
               tpm_read c2 room sz3 = Some (0, [], c2) \<and>
               length r1 = k \<and> length r2 = nat (data_pending chip) - k \<and>
               r1 @ r2 = take (nat (data_pending chip))
                              (drop (nat (data_position chip)) (data_buffer chip))))"
proof -
  let ?p = "nat (data_pending chip)"
  let ?q = "nat (data_position chip)"
  let ?buf = "data_buffer chip"
  have room1: "min sz ?p \<le> room" using room by simp
  note one = tpm_read_pending[OF pend free room1 pos inside]
  have two: "\<exists>r1 c1 r2 c2.
               tpm_read chip room k = Some (int k, r1, c1) \<and>
               tpm_read c1 room sz2 = Some (data_pending chip - int k, r2, c2) \<and>
               tpm_read c2 room sz3 = Some (0, [], c2) \<and>
               length r1 = k \<and> length r2 = ?p - k \<and>
               r1 @ r2 = take ?p (drop ?q ?buf)"
    if k: "0 < k" "k < ?p" and sz2: "?p - k \<le> sz2"
  proof -
    let ?c1 = "chip\<lparr>user_read_timer := None, data_pending := data_pending chip - int k,
                    data_position := data_position chip + int k\<rparr>"
    let ?c2 = "?c1\<lparr>user_read_timer := None, data_pending := 0,
                   data_position := data_position chip + data_pending chip\<rparr>"
    have mk: "min k ?p = k" using k by simp
    have roomk: "min k ?p \<le> room" using room k by simp
    from tpm_read_pending[OF pend free roomk pos inside]
    have r1: "tpm_read chip room k = Some (int k, take k (drop ?q ?buf), ?c1)"
      and l1: "length (take k (drop ?q ?buf)) = k"
      unfolding mk by simp_all
    have pend1: "0 < data_pending ?c1" using k by simp
    have free1: "0 < buffer_mutex ?c1" using free by simp
    have n1: "nat (data_pending ?c1) = ?p - k" using k by simp
    have m1: "min sz2 (nat (data_pending ?c1)) = ?p - k" using sz2 n1 by simp
    have room2: "min sz2 (nat (data_pending ?c1)) \<le> room" using room m1 by simp
    have pos1: "0 \<le> data_position ?c1" using pos by simp
    have inside1: "data_position ?c1 + data_pending ?c1 \<le> int (length (data_buffer ?c1))"
      using inside by simp
    have q1: "nat (data_position ?c1) = ?q + k" using pos by simp
    have rest: "int (?p - k) = data_pending chip - int k" using k pend by simp
    from tpm_read_pending[OF pend1 free1 room2 pos1 inside1]
    have r2: "tpm_read ?c1 room sz2 =
                Some (data_pending chip - int k, take (?p - k) (drop (?q + k) ?buf), ?c2)"
      and l2: "length (take (?p - k) (drop (?q + k) ?buf)) = ?p - k"
      unfolding m1 q1 using rest by (simp_all del: length_take)
    have r3: "tpm_read ?c2 room sz3 = Some (0, [], ?c2)"
      using tpm_read_idle[of ?c2 room sz3] by simp
    have "take ?p (drop ?q ?buf) = take (k + (?p - k)) (drop ?q ?buf)" using k by simp
    also have "\<dots> = take k (drop ?q ?buf) @ take (?p - k) (drop (?q + k) ?buf)"
      unfolding take_add by (simp add: add.commute)
    finally have cat: "take k (drop ?q ?buf) @ take (?p - k) (drop (?q + k) ?buf) =
                       take ?p (drop ?q ?buf)" by simp
    from r1 r2 r3 l1 l2 cat show ?thesis by blast
  qed
  from one two show ?thesis by blast
qed

theorem tpm_read_hands_out_response_witness:
  "0 < data_pending pending_chip \<and> 0 < buffer_mutex pending_chip \<and>
   0 \<le> data_position pending_chip \<and>
   data_position pending_chip + data_pending pending_chip
     \<le> int (length (data_buffer pending_chip)) \<and>
   nat (data_pending pending_chip) \<le> 4096 \<and>
   tpm_read pending_chip 4096 4 =
     Some (4, [0, 196, 0, 0],
           pending_chip\<lparr>user_read_timer := None, data_pending := 6, data_position := 4\<rparr>) \<and>
   (\<exists>r1 c1 r2 c2.
      tpm_read pending_chip 4096 4 = Some (4, r1, c1) \<and>
      tpm_read c1 4096 100 = Some (6, r2, c2) \<and>
      tpm_read c2 4096 100 = Some (0, [], c2) \<and>
      length r1 = 4 \<and> length r2 = 6 \<and> r1 @ r2 = demo_response)"
proof -
  have pend: "0 < data_pending pending_chip" by (simp add: pending_chip_def)
  have free: "0 < buffer_mutex pending_chip" by (simp add: pending_chip_def fresh_chip_def)
  have pos: "0 \<le> data_position pending_chip" by (simp add: pending_chip_def fresh_chip_def)
  have inside: "data_position pending_chip + data_pending pending_chip
                  \<le> int (length (data_buffer pending_chip))"
    by (simp add: pending_chip_def fresh_chip_def demo_response_def)
  have room: "nat (data_pending pending_chip) \<le> 4096" by (simp add: pending_chip_def)
  have vals: "data_pending pending_chip = 10" "data_position pending_chip = 0"
    "take 4 (data_buffer pending_chip) = [0, 196, 0, 0]"
    "take 10 (data_buffer pending_chip) = demo_response"
    by (simp_all add: pending_chip_def fresh_chip_def demo_response_def)
  from tpm_read_hands_out_response[OF pend free pos inside room, of 4 4 100 100]
  show ?thesis using pend free pos inside room vals by auto
qed

text \<open>
  C8.  When the expiry timer of a chip with an allocated buffer comes due while the
  buffer lock is free, its callback runs: the pending count becomes 0, whatever it was,
  and all \<^verbatim>\<open>TPM_BUFSIZE\<close> bytes of the data buffer become 0.  A read after that
  returns 0 and hands out no bytes.
\<close>

theorem expiry_discards_response:
  assumes armed: "user_read_timer chip = Some t"
    and due: "t \<le> j"
    and free: "0 < buffer_mutex chip"
    and len: "length (data_buffer chip) = TPM_BUFSIZE"
  shows "\<exists>chip'. run_timer chip j = Some chip' \<and>
           user_reader_timeout (chip\<lparr>user_read_timer := None\<rparr>) = Some chip' \<and>
           data_pending chip' = 0 \<and>
           data_buffer chip' = replicate TPM_BUFSIZE 0 \<and>
           tpm_read chip' room sz = Some (0, [], chip')"
proof -
  let ?c = "chip\<lparr>user_read_timer := None\<rparr>"
  let ?c' = "?c\<lparr>data_pending := 0,
               data_buffer := replicate TPM_BUFSIZE 0 @ drop TPM_BUFSIZE (data_buffer ?c)\<rparr>"
  have free': "0 < buffer_mutex ?c" using free by simp
  have t: "user_reader_timeout ?c = Some ?c'"
    by (rule user_reader_timeout_free[OF free'])
  have r: "run_timer chip j = Some ?c'"
    using armed due t by (simp add: run_timer_def)
  have b: "data_buffer ?c' = replicate TPM_BUFSIZE 0" using len by simp
  have rd: "tpm_read ?c' room sz = Some (0, [], ?c')"
    using tpm_read_idle[of ?c' room sz] by simp
  from t r b rd show ?thesis by (intro exI[of _ ?c']) simp
qed

theorem expiry_discards_response_witness:
  "user_read_timer pending_chip = Some 60 \<and> (60::nat) \<le> 61 \<and>
   0 < buffer_mutex pending_chip \<and> length (data_buffer pending_chip) = TPM_BUFSIZE \<and>
   0 < data_pending pending_chip \<and>
   (\<exists>chip'. run_timer pending_chip 61 = Some chip' \<and>
      user_reader_timeout (pending_chip\<lparr>user_read_timer := None\<rparr>) = Some chip' \<and>
      data_pending chip' = 0 \<and>
      data_buffer chip' = replicate TPM_BUFSIZE 0 \<and>
      tpm_read chip' 4096 100 = Some (0, [], chip'))"
proof -
  have armed: "user_read_timer pending_chip = Some 60" by (simp add: pending_chip_def)
  have due: "(60::nat) \<le> 61" by simp
  have free: "0 < buffer_mutex pending_chip" by (simp add: pending_chip_def fresh_chip_def)
  have len: "length (data_buffer pending_chip) = TPM_BUFSIZE"
    by (simp add: pending_chip_def demo_response_def TPM_BUFSIZE_def)
  have pend: "0 < data_pending pending_chip" by (simp add: pending_chip_def)
  from expiry_discards_response[OF armed due free len, of 4096 100]
  show ?thesis using armed free len pend by simp
qed

subsection \<open>What a transaction leaves behind\<close>

text \<open>With the transaction lock free, \<^verbatim>\<open>tpm_transmit\<close> returns.\<close>

lemma tpm_transmit_returns:
  assumes "0 < tpm_mutex chip"
  shows "\<exists>rc b chip' j'. tpm_transmit p chip j buf bufsiz = Some (rc, b, chip', j')"
proof -
  let ?count = "unat (be32_to_cpu buf 2)"
  let ?c1 = "chip\<lparr>tpm_mutex := tpm_mutex chip - 1,
                   hw := snd (send (vendor chip) (hw chip) buf ?count),
                   calls := calls chip @ [Send buf ?count]\<rparr>"
  obtain res c2 j2 where ps: "poll_status p (j + 2 * 60 * HZ p) ?c1 j = (res, c2, j2)"
    by (cases "poll_status p (j + 2 * 60 * HZ p) ?c1 j") auto
  show ?thesis
    using assms ps
    by (cases res) (simp_all add: tpm_transmit_def Let_def down_def)
qed

text \<open>
  A call that returns has either gone through \<^verbatim>\<open>recv\<close>, whose result it returns, and
  reset the read cursor, or it returns a negative code with buffer and cursor untouched.
  Apart from the cursor it changes the device state and the call log only; the lock is
  released.
\<close>

lemma tpm_transmit_cases:
  assumes "tpm_transmit p chip j buf bufsiz = Some (rc, b', chip', j')"
  shows "(\<exists>h' cs. chip' = chip\<lparr>hw := h', calls := cs\<rparr> \<and> rc < 0 \<and> b' = buf) \<or>
         (\<exists>h h' cs. chip' = chip\<lparr>hw := h', calls := cs, data_position := 0\<rparr> \<and>
            rc = fst (recv (vendor chip) h buf bufsiz) \<and>
            b' = fst (snd (recv (vendor chip) h buf bufsiz)))"
proof (cases "be32_to_cpu buf 2 = 0 \<or> bufsiz < unat (be32_to_cpu buf 2)")
  case True
  with assms have "chip' = chip \<and> rc < 0 \<and> b' = buf"
    by (auto simp: tpm_transmit_def Let_def ENODATA_def E2BIG_def split: if_splits)
  then have "chip' = chip\<lparr>hw := hw chip, calls := calls chip\<rparr> \<and> rc < 0 \<and> b' = buf"
    by simp
  then show ?thesis by blast
next
  case False
  let ?count = "unat (be32_to_cpu buf 2)"
  let ?s = "send (vendor chip) (hw chip) buf ?count"
  let ?c1 = "chip\<lparr>tpm_mutex := tpm_mutex chip - 1, hw := snd ?s,
                   calls := calls chip @ [Send buf ?count]\<rparr>"
  from False assms have free: "0 < tpm_mutex chip"
    by (auto simp: tpm_transmit_def Let_def down_def split: if_splits)
  show ?thesis
  proof (cases "fst ?s < 0")
    case True
    with False assms free
    have "chip' = chip\<lparr>hw := snd ?s, calls := calls chip @ [Send buf ?count]\<rparr> \<and>
          rc < 0 \<and> b' = buf"
      by (auto simp: tpm_transmit_def Let_def down_def up_def)
    then show ?thesis by blast
  next
    case ok: False
    obtain res c2 j2 where ps: "poll_status p (j + 2 * 60 * HZ p) ?c1 j = (res, c2, j2)"
      by (cases "poll_status p (j + 2 * 60 * HZ p) ?c1 j") auto
    from poll_status_frame[of p "j + 2 * 60 * HZ p" ?c1 j] ps
    obtain h2 n where c2: "c2 = ?c1\<lparr>hw := h2, calls := calls ?c1 @ replicate (Suc n) Status\<rparr>"
      by auto
    show ?thesis
    proof (cases res)
      case Complete
      with False assms free ok ps c2
      have "chip' = chip\<lparr>hw := snd (snd (recv (vendor chip) h2 buf bufsiz)),
                         calls := calls chip @ [Send buf ?count] @ replicate (Suc n) Status
                                  @ [Recv bufsiz],
                         data_position := 0\<rparr> \<and>
            rc = fst (recv (vendor chip) h2 buf bufsiz) \<and>
            b' = fst (snd (recv (vendor chip) h2 buf bufsiz))"
        by (auto simp: tpm_transmit_def Let_def down_def up_def)
      then show ?thesis by blast
    next
      case Cancelled
      with False assms free ok ps c2
      have "chip' = chip\<lparr>hw := h2,
                         calls := calls chip @ [Send buf ?count] @ replicate (Suc n) Status\<rparr> \<and>
            rc < 0 \<and> b' = buf"
        by (auto simp: tpm_transmit_def Let_def down_def up_def ECANCELED_def)
      then show ?thesis by blast
    next
      case Expired
      with False assms free ok ps c2
      have "chip' = chip\<lparr>hw := cancel (vendor chip) h2,
                         calls := calls chip @ [Send buf ?count] @ replicate (Suc n) Status
                                  @ [Cancel]\<rparr> \<and>
            rc < 0 \<and> b' = buf"
        by (auto simp: tpm_transmit_def Let_def down_def up_def ETIME_def)
      then show ?thesis by blast
    qed
  qed
qed

text \<open>
  Every call of \<^verbatim>\<open>tpm_transmit\<close> that returns leaves the transaction lock as it found
  it, whichever way it ends.
\<close>

lemma tpm_transmit_releases_lock:
  assumes "tpm_transmit p chip j buf bufsiz = Some (rc, b', chip', j')"
  shows "tpm_mutex chip' = tpm_mutex chip"
  using tpm_transmit_cases[OF assms] by auto

text \<open>A well-formed command on a free chip reaches the vendor's \<^verbatim>\<open>send\<close> first.\<close>

lemma tpm_transmit_sends:
  assumes nz: "be32_to_cpu buf 2 \<noteq> 0"
    and fits: "unat (be32_to_cpu buf 2) \<le> bufsiz"
    and free: "0 < tpm_mutex chip"
  shows "\<exists>rc b chip' j' rest. tpm_transmit p chip j buf bufsiz = Some (rc, b, chip', j') \<and>
           calls chip' = calls chip @ Send buf (unat (be32_to_cpu buf 2)) # rest"
proof -
  let ?count = "unat (be32_to_cpu buf 2)"
  let ?c1 = "chip\<lparr>tpm_mutex := tpm_mutex chip - 1,
                   hw := snd (send (vendor chip) (hw chip) buf ?count),
                   calls := calls chip @ [Send buf ?count]\<rparr>"
  obtain res c2 j2 where ps: "poll_status p (j + 2 * 60 * HZ p) ?c1 j = (res, c2, j2)"
    by (cases "poll_status p (j + 2 * 60 * HZ p) ?c1 j") auto
  from poll_status_frame[of p "j + 2 * 60 * HZ p" ?c1 j] ps
  obtain h2 n where c2: "c2 = ?c1\<lparr>hw := h2, calls := calls ?c1 @ replicate (Suc n) Status\<rparr>"
    by auto
  show ?thesis
    using nz fits free ps c2
    by (cases res) (simp_all add: tpm_transmit_def Let_def down_def not_less)
qed

subsection \<open>Writing a command\<close>

lemma sint_in_size:
  assumes "sz < 2 ^ 31"
  shows "sint (word_of_nat sz :: 32 word) = int sz"
proof -
  have "int sz < 2 ^ 31" using assms by (simp add: of_nat_less_iff[of sz "2 ^ 31", simplified])
  then have "signed_take_bit 31 (int sz) = int sz"
    by (intro signed_take_bit_int_eq_self) simp_all
  then show ?thesis by (simp add: signed_of_nat)
qed

lemma wait_data_pending_idle:
  "data_pending chip = 0 \<Longrightarrow> wait_data_pending p chip j = Some (chip, j)"
  by (subst wait_data_pending.simps) simp

text \<open>
  What \<^verbatim>\<open>tpm_write\<close> does on an idle chip: the accepted bytes replace the head of the
  buffer, the transaction runs on the whole buffer with capacity \<^verbatim>\<open>TPM_BUFSIZE\<close>, its
  result becomes the pending count, the timer is set to 60 seconds after the
  transaction's end, and the return value is the number of accepted bytes, whatever the
  transaction returned.  A result that is not positive is what the next read returns.
\<close>

lemma tpm_write_idle:
  assumes idle: "data_pending chip = 0"
    and bfree: "0 < buffer_mutex chip"
    and tfree: "0 < tpm_mutex chip"
    and small: "sz < 2 ^ 31"
    and src: "min sz TPM_BUFSIZE \<le> length ubuf"
  shows "\<exists>out_size b' chip1 j1.
           tpm_transmit p
             (chip\<lparr>buffer_mutex := buffer_mutex chip - 1,
                   data_buffer := take (min sz TPM_BUFSIZE) ubuf @
                                  drop (min sz TPM_BUFSIZE) (data_buffer chip)\<rparr>)
             j (take (min sz TPM_BUFSIZE) ubuf @ drop (min sz TPM_BUFSIZE) (data_buffer chip))
             TPM_BUFSIZE = Some (out_size, b', chip1, j1) \<and>
           tpm_write p chip j ubuf sz =
             Some (int (min sz TPM_BUFSIZE),
                   chip1\<lparr>data_buffer := b', data_pending := out_size,
                         buffer_mutex := buffer_mutex chip,
                         user_read_timer := Some (j1 + 60 * HZ p)\<rparr>, j1) \<and>
           (out_size \<le> 0 \<longrightarrow>
              tpm_read (chip1\<lparr>data_buffer := b', data_pending := out_size,
                              buffer_mutex := buffer_mutex chip,
                              user_read_timer := Some (j1 + 60 * HZ p)\<rparr>) room k =
                Some (out_size, [],
                      chip1\<lparr>data_buffer := b', data_pending := out_size,
                            buffer_mutex := buffer_mutex chip,
                            user_read_timer := None\<rparr>))"
proof -
  let ?n = "min sz TPM_BUFSIZE"
  let ?b = "take ?n ubuf @ drop ?n (data_buffer chip)"
  let ?c = "chip\<lparr>buffer_mutex := buffer_mutex chip - 1, data_buffer := ?b\<rparr>"
  have tfree': "0 < tpm_mutex ?c" using tfree by simp
  from tpm_transmit_returns[OF tfree', of p j ?b TPM_BUFSIZE]
  obtain out_size b' chip1 j1
    where tr: "tpm_transmit p ?c j ?b TPM_BUFSIZE = Some (out_size, b', chip1, j1)"
    by blast
  from tpm_transmit_cases[OF tr]
  have bm: "buffer_mutex chip1 = buffer_mutex chip - 1" by auto
  have upm: "up (buffer_mutex chip1) = buffer_mutex chip"
    using bm bfree by (simp add: up_def)
  have in_size: "(if int TPM_BUFSIZE < sint (word_of_nat sz :: 32 word)
                  then int TPM_BUFSIZE else sint (word_of_nat sz :: 32 word)) = int ?n"
    unfolding sint_in_size[OF small] by (simp add: min_def)
  have cp: "copy_from_user (data_buffer chip) ubuf ?n = Some ?b"
    using src by (simp add: copy_from_user_def)
  have w: "tpm_write p chip j ubuf sz =
             Some (int ?n,
                   chip1\<lparr>data_buffer := b', data_pending := out_size,
                         buffer_mutex := buffer_mutex chip,
                         user_read_timer := Some (j1 + 60 * HZ p)\<rparr>, j1)"
    unfolding tpm_write_def wait_data_pending_idle[OF idle] Let_def in_size
    using bfree cp tr upm by (simp add: down_def)
  have rd: "tpm_read (chip1\<lparr>data_buffer := b', data_pending := out_size,
                              buffer_mutex := buffer_mutex chip,
                              user_read_timer := Some (j1 + 60 * HZ p)\<rparr>) room k =
                Some (out_size, [],
                      chip1\<lparr>data_buffer := b', data_pending := out_size,
                            buffer_mutex := buffer_mutex chip,
                            user_read_timer := None\<rparr>)"
    if "out_size \<le> 0"
    using that by (simp add: tpm_read_def Let_def)
  from tr w rd show ?thesis by blast
qed

lemma opened_chip_eq:
  "opened_chip v =
     (fresh_chip 0 v 0)\<lparr>num_opens := 1, data_buffer := replicate 2048 0, data_pending := 0\<rparr>"
  by (simp add: opened_chip_def tpm_open_chip_def fresh_chip_def)

lemma command_buffer_eq:
  "take (min 14 TPM_BUFSIZE) pcrread @
   drop (min 14 TPM_BUFSIZE) (data_buffer (opened_chip v)) = command_buffer"
  by (simp add: opened_chip_eq command_buffer_def TPM_BUFSIZE_def pcrread_def)

lemma be32_to_cpu_command_buffer: "be32_to_cpu command_buffer 2 = 14"
  by (simp add: be32_to_cpu_def command_buffer_def pcrread_def)

text \<open>A transaction whose \<^verbatim>\<open>send\<close> fails returns the vendor's error code.\<close>

lemma tpm_transmit_send_fails:
  assumes "be32_to_cpu buf 2 \<noteq> 0" and "unat (be32_to_cpu buf 2) \<le> bufsiz"
    and "0 < tpm_mutex chip"
    and "fst (send (vendor chip) (hw chip) buf (unat (be32_to_cpu buf 2))) < 0"
  shows "tpm_transmit p chip j buf bufsiz =
           Some (fst (send (vendor chip) (hw chip) buf (unat (be32_to_cpu buf 2))), buf,
                 chip\<lparr>hw := snd (send (vendor chip) (hw chip) buf (unat (be32_to_cpu buf 2))),
                      calls := calls chip @ [Send buf (unat (be32_to_cpu buf 2))]\<rparr>, j)"
  using assms by (simp add: tpm_transmit_def Let_def down_def up_def not_less)

text \<open>
  With a pending count that is not 0 and the timer not armed, the wait at the head of
  \<^verbatim>\<open>tpm_write\<close> never ends, and so the write never returns.
\<close>

lemma wait_data_pending_unarmed:
  assumes pend: "data_pending chip \<noteq> 0" and unarmed: "user_read_timer chip = None"
  shows "wait_data_pending p chip j = None"
proof -
  have "data_pending chip \<noteq> 0 \<longrightarrow> user_read_timer chip = None \<longrightarrow> False"
    if "wait_data_pending p chip j = Some r" for r
  proof (rule wait_data_pending.raw_induct[where P = "\<lambda>p chip j r.
            data_pending chip \<noteq> 0 \<longrightarrow> user_read_timer chip = None \<longrightarrow> False", OF _ that])
    fix wait :: "'a platform \<Rightarrow> 'a tpm_chip \<Rightarrow> nat \<Rightarrow> ('a tpm_chip \<times> nat) option"
      and p chip j r
    assume IH: "\<And>p chip j r. wait p chip j = Some r \<Longrightarrow>
                  data_pending chip \<noteq> 0 \<longrightarrow> user_read_timer chip = None \<longrightarrow> False"
      and body: "(if data_pending chip = 0 then Some (chip, j)
                  else Option.bind (run_timer (fst (msleep p chip j)) (snd (msleep p chip j)))
                         (\<lambda>chip'. wait p chip' (snd (msleep p chip j)))) = Some r"
    show "data_pending chip \<noteq> 0 \<longrightarrow> user_read_timer chip = None \<longrightarrow> False"
    proof (intro impI)
      assume pend: "data_pending chip \<noteq> 0" and unarmed: "user_read_timer chip = None"
      from unarmed have rt: "run_timer (fst (msleep p chip j)) (snd (msleep p chip j)) =
                               Some (fst (msleep p chip j))"
        by (simp add: run_timer_def msleep_def)
      from body pend rt
      have w: "wait p (fst (msleep p chip j)) (snd (msleep p chip j)) = Some r" by simp
      from IH[OF w] pend unarmed show False by (simp add: msleep_def)
    qed
  qed
  with pend unarmed have "wait_data_pending p chip j \<noteq> Some r" for r by blast
  then show ?thesis by (cases "wait_data_pending p chip j") auto
qed

lemma tpm_write_blocked:
  assumes "data_pending chip \<noteq> 0" and "user_read_timer chip = None"
  shows "tpm_write p chip j ubuf sz = None"
  by (simp add: tpm_write_def wait_data_pending_unarmed[OF assms])

text \<open>
  C6, at the input where the code leaves the claim.  On the opened, idle chip of a vendor
  whose \<^verbatim>\<open>send\<close> fails with -5, the 14 byte PCR read command is written.  The
  transaction returns -5, but \<^verbatim>\<open>tpm_write\<close> returns 14: the error does not reach the
  caller of the write and is left in \<^verbatim>\<open>data_pending\<close>.  A read then returns -5,
  leaves it there and disarms the timer, after which a further write, at whatever time
  and with whatever input, never returns.
\<close>

theorem tpm_write_parks_transmit_error:
  "data_pending (opened_chip (failing_vendor (- 5))) = 0 \<and>
   map_option fst
     (tpm_transmit demo_platform
        ((opened_chip (failing_vendor (- 5)))\<lparr>buffer_mutex := 0, data_buffer := command_buffer\<rparr>)
        0 command_buffer TPM_BUFSIZE) = Some (- 5) \<and>
   tpm_write demo_platform (opened_chip (failing_vendor (- 5))) 0 pcrread 14 =
     Some (14, parked_chip, 0) \<and>
   data_pending parked_chip = - 5 \<and>
   tpm_read parked_chip 4096 100 = Some (- 5, [], parked_chip\<lparr>user_read_timer := None\<rparr>) \<and>
   tpm_write p (parked_chip\<lparr>user_read_timer := None\<rparr>) j ubuf sz = None"
proof -
  let ?chip = "opened_chip (failing_vendor (- 5))"
  let ?c = "?chip\<lparr>buffer_mutex := 0, data_buffer := command_buffer\<rparr>"
  have idle: "data_pending ?chip = 0" by (simp add: opened_chip_eq)
  have tr: "tpm_transmit demo_platform ?c 0 command_buffer TPM_BUFSIZE =
              Some (- 5, command_buffer,
                    ?c\<lparr>hw := 0, calls := [Send command_buffer 14]\<rparr>, 0)"
    by (subst tpm_transmit_send_fails)
       (simp_all add: be32_to_cpu_command_buffer TPM_BUFSIZE_def opened_chip_eq fresh_chip_def
          failing_vendor_def ready_vendor_def)
  have cp: "copy_from_user (data_buffer ?chip) pcrread 14 = Some command_buffer"
    by (simp add: copy_from_user_def opened_chip_eq command_buffer_def pcrread_def)
  have bm: "buffer_mutex ?chip = 1" by (simp add: opened_chip_eq fresh_chip_def)
  have parked: "?c\<lparr>hw := 0, calls := [Send command_buffer 14]\<rparr>
                  \<lparr>data_buffer := command_buffer, data_pending := - 5,
                   buffer_mutex := up 0, user_read_timer := Some (0 + 60 * HZ demo_platform)\<rparr>
                = parked_chip"
    by (simp add: parked_chip_def opened_chip_eq fresh_chip_def up_def demo_platform_def)
  have wr: "tpm_write demo_platform ?chip 0 pcrread 14 = Some (14, parked_chip, 0)"
    unfolding tpm_write_def wait_data_pending_idle[OF idle]
    using cp tr parked
    by (simp add: down_def bm Let_def TPM_BUFSIZE_def)
  have pend: "data_pending parked_chip = - 5" by (simp add: parked_chip_def)
  have rd: "tpm_read parked_chip 4096 100 =
              Some (- 5, [], parked_chip\<lparr>user_read_timer := None\<rparr>)"
    by (simp add: tpm_read_def Let_def pend)
  have blocked: "tpm_write p (parked_chip\<lparr>user_read_timer := None\<rparr>) j ubuf sz = None"
    by (rule tpm_write_blocked) (simp_all add: pend)
  from idle tr wr pend rd blocked show ?thesis by simp
qed

subsection \<open>The invariant of the hand-off state\<close>

text \<open>
  The wait at the head of \<^verbatim>\<open>tpm_write\<close>, when it ends, ends with nothing pending; it
  has moved neither the cursor nor the vendor binding.
\<close>

lemma run_timer_frame:
  assumes "run_timer chip j = Some chip'"
  shows "data_position chip' = data_position chip \<and> vendor chip' = vendor chip"
  using assms
  by (auto simp: run_timer_def user_reader_timeout_def down_def
      split: option.splits if_splits)

lemma wait_data_pending_result:
  assumes "wait_data_pending p chip j = Some r"
  shows "data_pending (fst r) = 0 \<and> data_position (fst r) = data_position chip \<and>
         vendor (fst r) = vendor chip"
proof (rule wait_data_pending.raw_induct[where P = "\<lambda>p chip j r.
          data_pending (fst r) = 0 \<and> data_position (fst r) = data_position chip \<and>
          vendor (fst r) = vendor chip", OF _ assms])
  fix wait :: "'a platform \<Rightarrow> 'a tpm_chip \<Rightarrow> nat \<Rightarrow> ('a tpm_chip \<times> nat) option"
    and p chip j r
  assume IH: "\<And>p chip j r. wait p chip j = Some r \<Longrightarrow>
                data_pending (fst r) = 0 \<and> data_position (fst r) = data_position chip \<and>
                vendor (fst r) = vendor chip"
    and body: "(if data_pending chip = 0 then Some (chip, j)
                else Option.bind (run_timer (fst (msleep p chip j)) (snd (msleep p chip j)))
                       (\<lambda>chip'. wait p chip' (snd (msleep p chip j)))) = Some r"
  show "data_pending (fst r) = 0 \<and> data_position (fst r) = data_position chip \<and>
        vendor (fst r) = vendor chip"
  proof (cases "data_pending chip = 0")
    case True
    with body show ?thesis by auto
  next
    case False
    with body obtain c2
      where rt: "run_timer (fst (msleep p chip j)) (snd (msleep p chip j)) = Some c2"
        and w: "wait p c2 (snd (msleep p chip j)) = Some r"
      by (auto simp: bind_eq_Some_conv)
    from run_timer_frame[OF rt]
    have "data_position c2 = data_position chip \<and> vendor c2 = vendor chip"
      by (simp add: msleep_def)
    with IH[OF w] show ?thesis by simp
  qed
qed

lemma handoff_inv_transmit:
  assumes inv: "handoff_inv chip"
    and tr: "tpm_transmit p chip j buf bufsiz = Some (rc, b', chip', j')"
  shows "handoff_inv chip'"
  using tpm_transmit_cases[OF tr] inv
  by (auto simp: handoff_inv_def)

lemma handoff_inv_write:
  assumes inv: "handoff_inv chip"
    and wr: "tpm_write p chip j ubuf sz = Some (rc, chip', j')"
  shows "handoff_inv chip'"
proof -
  from wr obtain c0 j0 where w: "wait_data_pending p chip j = Some (c0, j0)"
    by (auto simp: tpm_write_def split: option.splits)
  from wait_data_pending_result[OF w]
  have c0: "data_pending c0 = 0" "data_position c0 = data_position chip"
    "vendor c0 = vendor chip"
    by simp_all
  with inv have inv0: "handoff_inv c0" by (simp add: handoff_inv_def)
  from wr w obtain m where m: "down (buffer_mutex c0) = Some m"
    by (auto simp: tpm_write_def split: option.splits)
  let ?in_size = "if int TPM_BUFSIZE < sint (word_of_nat sz :: 32 word)
                  then int TPM_BUFSIZE else sint (word_of_nat sz :: 32 word)"
  show ?thesis
  proof (cases "if ?in_size < 0 then None
                else copy_from_user (data_buffer c0) ubuf (nat ?in_size)")
    case None
    with wr w m have "chip' = c0"
      by (simp add: tpm_write_def Let_def)
    with inv0 show ?thesis by simp
  next
    case (Some b)
    let ?c = "c0\<lparr>buffer_mutex := m, data_buffer := b\<rparr>"
    from wr w m Some obtain out_size b' chip1 j1
      where tr: "tpm_transmit p ?c j0 b TPM_BUFSIZE = Some (out_size, b', chip1, j1)"
        and c': "chip' = chip1\<lparr>data_buffer := b', data_pending := out_size,
                              buffer_mutex := up (buffer_mutex chip1),
                              user_read_timer := Some (j1 + 60 * HZ p)\<rparr>"
      by (auto simp: tpm_write_def Let_def split: option.splits)
    from inv0 have fits: "\<forall>h buf n. fst (recv (vendor ?c) h buf n) \<le> int n"
      by (simp add: handoff_inv_def)
    from tpm_transmit_cases[OF tr]
    show ?thesis
    proof
      assume "\<exists>h' cs. chip1 = ?c\<lparr>hw := h', calls := cs\<rparr> \<and> out_size < 0 \<and> b' = b"
      with c' inv0 show ?thesis by (auto simp: handoff_inv_def)
    next
      assume "\<exists>h h' cs. chip1 = ?c\<lparr>hw := h', calls := cs, data_position := 0\<rparr> \<and>
                out_size = fst (recv (vendor ?c) h b TPM_BUFSIZE) \<and>
                b' = fst (snd (recv (vendor ?c) h b TPM_BUFSIZE))"
      then obtain h h' cs
        where c1: "chip1 = ?c\<lparr>hw := h', calls := cs, data_position := 0\<rparr>"
          and os: "out_size = fst (recv (vendor ?c) h b TPM_BUFSIZE)"
        by blast
      from fits os have "out_size \<le> int TPM_BUFSIZE" by simp
      with c' c1 inv0 show ?thesis by (simp add: handoff_inv_def)
    qed
  qed
qed

lemma handoff_inv_read:
  assumes inv: "handoff_inv chip"
    and rd: "tpm_read chip room sz = Some (rc, bytes, chip')"
  shows "handoff_inv chip'"
proof (cases "0 < data_pending chip")
  case False
  with rd have "chip' = chip\<lparr>user_read_timer := None\<rparr>"
    by (simp add: tpm_read_def Let_def)
  with inv show ?thesis by (simp add: handoff_inv_def)
next
  case True
  let ?r = "if int sz < data_pending chip then int sz else data_pending chip"
  have r: "0 \<le> ?r" "?r \<le> data_pending chip" using True by simp_all
  from True rd
  have "chip' = chip\<lparr>user_read_timer := None\<rparr> \<or>
        chip' = chip\<lparr>user_read_timer := None, data_pending := data_pending chip - ?r,
                     data_position := data_position chip + ?r\<rparr>"
    by (auto simp: tpm_read_def Let_def down_def up_def split: option.splits if_splits)
  then show ?thesis
  proof
    assume "chip' = chip\<lparr>user_read_timer := None\<rparr>"
    with inv show ?thesis by (simp add: handoff_inv_def)
  next
    assume c: "chip' = chip\<lparr>user_read_timer := None, data_pending := data_pending chip - ?r,
                     data_position := data_position chip + ?r\<rparr>"
    from inv r have "0 \<le> data_position chip + ?r"
      "data_position chip + ?r \<le> int TPM_BUFSIZE"
      unfolding handoff_inv_def by linarith+
    with inv show ?thesis unfolding c by (simp add: handoff_inv_def)
  qed
qed

lemma handoff_inv_step:
  assumes "handoff_inv chip" and "handoff_step p chip x = Some chip'"
  shows "handoff_inv chip'"
proof (cases x)
  case (Write j ubuf sz)
  with assms show ?thesis by (auto dest: handoff_inv_write)
next
  case (Read room sz)
  with assms show ?thesis by (auto dest: handoff_inv_read)
next
  case Expire
  with assms show ?thesis
    by (auto simp: user_reader_timeout_def handoff_inv_def split: option.splits)
next
  case (Reopen b)
  with assms show ?thesis
    by (auto simp: tpm_open_chip_def tpm_release_def handoff_inv_def split: if_splits)
next
  case (Transmit j buf bufsiz)
  with assms show ?thesis by (auto dest: handoff_inv_transmit)
qed

lemma handoff_inv_run:
  assumes "handoff_inv chip" and "handoff_run p chip xs = Some chip'"
  shows "handoff_inv chip'"
  using assms
proof (induction xs arbitrary: chip)
  case Nil
  then show ?case by simp
next
  case (Cons x xs)
  from Cons.prems(2) obtain c1 where s: "handoff_step p chip x = Some c1"
    and r: "handoff_run p c1 xs = Some chip'"
    by (auto split: option.splits)
  from Cons.IH[OF handoff_inv_step[OF Cons.prems(1) s] r] show ?case .
qed

text \<open>The first open after a successful registration starts with cursor 0 and nothing
  pending.\<close>

lemma first_open:
  assumes reg: "tpm_register_hardware_nopci True True d entry h drv = (0, drv')"
    and opn: "tpm_open_chip (Some b) (hd (tpm_chip_list drv')) = (0, chip0)"
  shows "data_position chip0 = 0 \<and> data_pending chip0 = 0 \<and>
         recv (vendor chip0) = recv entry"
proof -
  from reg obtain i j where
    "hd (tpm_chip_list drv') =
       (fresh_chip d (entry\<lparr>miscdev_minor :=
          (if int (i * TPM_NUM_MASK_ENTRIES + j) = 0 then TPM_MINOR else MISC_DYNAMIC_MINOR)\<rparr>) h)
        \<lparr>dev_num := int (i * TPM_NUM_MASK_ENTRIES + j)\<rparr>"
    by (auto simp: tpm_register_hardware_nopci_def Let_def ENODEV_def split: option.splits)
  with opn show ?thesis
    by (auto simp: tpm_open_chip_def fresh_chip_def EBUSY_def split: if_splits)
qed

subsection \<open>A run on the example device\<close>

lemma poll_status_complete:
  assumes "fst (status (vendor chip) (hw chip)) AND req_complete_mask (vendor chip)
             = req_complete_val (vendor chip)"
  shows "poll_status p stop chip j =
           (Complete, chip\<lparr>hw := snd (status (vendor chip) (hw chip)),
                           calls := calls chip @ [Status]\<rparr>, j)"
  using assms by (subst poll_status.simps) (simp add: Let_def)

lemma poll_status_sleep:
  assumes "fst (status (vendor chip) (hw chip)) AND req_complete_mask (vendor chip)
             \<noteq> req_complete_val (vendor chip)"
    and "fst (status (vendor chip) (hw chip)) \<noteq> req_canceled (vendor chip)"
    and "snd (msleep p (chip\<lparr>hw := snd (status (vendor chip) (hw chip)),
                             calls := calls chip @ [Status]\<rparr>) j) < stop"
  shows "poll_status p stop chip j =
           poll_status p stop
             (fst (msleep p (chip\<lparr>hw := snd (status (vendor chip) (hw chip)),
                                  calls := calls chip @ [Status]\<rparr>) j))
             (snd (msleep p (chip\<lparr>hw := snd (status (vendor chip) (hw chip)),
                                  calls := calls chip @ [Status]\<rparr>) j))"
  using assms by (subst poll_status.simps) (simp add: Let_def)

lemma driver_init_mask:
  "(driver_init :: 'hw driver) = \<lparr>tpm_chip_list = [], dev_mask = mask 0 # replicate 31 0\<rparr>"
  by (simp add: driver_init_def numeral_eq_Suc)

lemma demo_driver_eq:
  "tpm_register_hardware_nopci True True 0 ready_vendor 0 driver_init = (0, demo_driver)"
  "tpm_chip_list demo_driver =
     [(fresh_chip 0 (ready_vendor\<lparr>miscdev_minor := TPM_MINOR\<rparr>) 0)\<lparr>dev_num := 0\<rparr>]"
  unfolding demo_driver_def driver_init_mask
  using register_first_word[of 0 "\<lparr>tpm_chip_list = [], dev_mask = mask 0 # replicate 31 0\<rparr>"
      "replicate 31 0" 0 ready_vendor 0]
  by simp_all

lemma demo_chip_eq:
  "tpm_open_chip (Some (replicate 2048 0)) (hd (tpm_chip_list demo_driver)) = (0, demo_chip)"
  "demo_chip =
     \<lparr>dev = 0, dev_num = 0, num_opens = 1, data_buffer = replicate 2048 0, data_pending = 0,
      data_position = 0, user_read_timer = None, buffer_mutex = 1, tpm_mutex = 1,
      vendor = ready_vendor\<lparr>miscdev_minor := TPM_MINOR\<rparr>, hw = 0, calls = []\<rparr>"
  by (simp_all add: demo_chip_def demo_driver_eq tpm_open_chip_def fresh_chip_def)

lemma demo_transmit:
  "tpm_transmit demo_platform (demo_chip\<lparr>buffer_mutex := 0, data_buffer := command_buffer\<rparr>)
     0 command_buffer TPM_BUFSIZE =
   Some (10, demo_response @ drop 10 command_buffer,
         demo_chip\<lparr>buffer_mutex := 0, data_buffer := command_buffer,
                   calls := [Send command_buffer 14, Status, Status, Recv TPM_BUFSIZE]\<rparr>, 60)"
  apply (simp add: tpm_transmit_def be32_to_cpu_command_buffer)
  apply (simp add: TPM_BUFSIZE_def demo_chip_eq down_def up_def ready_vendor_def Let_def
      demo_platform_def)
  apply (subst poll_status_sleep; simp add: msleep_def)
  apply (subst poll_status_complete; simp add: up_def TPM_BUFSIZE_def)
  done


lemma demo_write:
  "tpm_write demo_platform demo_chip 0 pcrread 14 =
     Some (14,
           demo_chip\<lparr>data_buffer := demo_response @ drop 10 command_buffer,
                     data_pending := 10, user_read_timer := Some 120,
                     calls := [Send command_buffer 14, Status, Status, Recv TPM_BUFSIZE]\<rparr>,
           60)"
proof -
  have cp: "copy_from_user (data_buffer demo_chip) pcrread 14 = Some command_buffer"
    by (simp add: copy_from_user_def demo_chip_eq command_buffer_def pcrread_def)
  have idle: "data_pending demo_chip = 0" by (simp add: demo_chip_eq)
  have c: "demo_chip\<lparr>buffer_mutex := 0, data_buffer := command_buffer\<rparr> =
           demo_chip\<lparr>buffer_mutex := 0, data_buffer := command_buffer\<rparr>" ..
  show ?thesis
    unfolding tpm_write_def wait_data_pending_idle[OF idle]
    using cp demo_transmit
    by (simp add: down_def up_def Let_def TPM_BUFSIZE_def demo_chip_eq(2) demo_platform_def)
qed

lemma demo_run:
  "handoff_run demo_platform demo_chip [Write 0 pcrread 14, Read 4096 4] =
     Some (demo_chip\<lparr>data_buffer := demo_response @ drop 10 command_buffer,
                     data_pending := 6, data_position := 4, user_read_timer := None,
                     calls := [Send command_buffer 14, Status, Status, Recv TPM_BUFSIZE]\<rparr>)"
  apply (simp add: demo_write)
  apply (simp add: tpm_read_def Let_def down_def up_def copy_to_user_def
      demo_chip_eq(2) demo_response_def)
  done

lemma greedy_driver_eq:
  "tpm_register_hardware_nopci True True 0 greedy_vendor 0 driver_init = (0, greedy_driver)"
  "tpm_chip_list greedy_driver =
     [(fresh_chip 0 (greedy_vendor\<lparr>miscdev_minor := TPM_MINOR\<rparr>) 0)\<lparr>dev_num := 0\<rparr>]"
  unfolding greedy_driver_def driver_init_mask
  using register_first_word[of 0 "\<lparr>tpm_chip_list = [], dev_mask = mask 0 # replicate 31 0\<rparr>"
      "replicate 31 0" 0 greedy_vendor 0]
  by simp_all

lemma greedy_chip_eq:
  "tpm_open_chip (Some (replicate 2048 0)) (hd (tpm_chip_list greedy_driver)) = (0, greedy_chip)"
  "greedy_chip =
     \<lparr>dev = 0, dev_num = 0, num_opens = 1, data_buffer = replicate 2048 0, data_pending = 0,
      data_position = 0, user_read_timer = None, buffer_mutex = 1, tpm_mutex = 1,
      vendor = greedy_vendor\<lparr>miscdev_minor := TPM_MINOR\<rparr>, hw = 0, calls = []\<rparr>"
  by (simp_all add: greedy_chip_def greedy_driver_eq tpm_open_chip_def fresh_chip_def)

lemma greedy_transmit:
  "tpm_transmit demo_platform (greedy_chip\<lparr>buffer_mutex := 0, data_buffer := command_buffer\<rparr>)
     0 command_buffer TPM_BUFSIZE =
   Some (5000, command_buffer,
         greedy_chip\<lparr>buffer_mutex := 0, data_buffer := command_buffer,
                     calls := [Send command_buffer 14, Status, Status, Recv TPM_BUFSIZE]\<rparr>, 60)"
  apply (simp add: tpm_transmit_def be32_to_cpu_command_buffer)
  apply (simp add: TPM_BUFSIZE_def greedy_chip_eq down_def up_def greedy_vendor_def
      ready_vendor_def Let_def demo_platform_def)
  apply (subst poll_status_sleep; simp add: msleep_def)
  apply (subst poll_status_complete; simp add: up_def TPM_BUFSIZE_def)
  done

lemma greedy_write:
  "tpm_write demo_platform greedy_chip 0 pcrread 14 = Some (14, greedy_chip_written, 60)"
proof -
  have cp: "copy_from_user (data_buffer greedy_chip) pcrread 14 = Some command_buffer"
    by (simp add: copy_from_user_def greedy_chip_eq command_buffer_def pcrread_def)
  have idle: "data_pending greedy_chip = 0" by (simp add: greedy_chip_eq)
  show ?thesis
    unfolding tpm_write_def wait_data_pending_idle[OF idle] greedy_chip_written_def
    using cp greedy_transmit
    by (simp add: down_def up_def Let_def TPM_BUFSIZE_def greedy_chip_eq(2) demo_platform_def)
qed

lemma demo_run_reopen:
  "handoff_run demo_platform demo_chip
     [Write 0 pcrread 14, Read 4096 4, Reopen (replicate 2048 0)] = Some reopened_chip"
  apply (simp add: demo_write)
  apply (simp add: tpm_read_def Let_def down_def up_def copy_to_user_def
      demo_chip_eq(2) demo_response_def tpm_release_def tpm_open_chip_def reopened_chip_def)
  done

text \<open>
  C9 does not hold as stated.  First, the code stores whatever length the vendor's
  \<^verbatim>\<open>recv\<close> reports: on the chip of a vendor whose \<^verbatim>\<open>recv\<close> reports 5000 bytes, registered
  and opened for the first time, one write leaves cursor 0 and pending count 5000, past
  the 2048 bytes of the buffer.  Second, an open does not set the cursor: after a write,
  a read of 4 bytes, a close and an open the cursor is 4.
\<close>

theorem handoff_invariant_needs_bounded_recv:
  "tpm_register_hardware_nopci True True 0 greedy_vendor 0 driver_init = (0, greedy_driver) \<and>
   tpm_open_chip (Some (replicate 2048 0)) (hd (tpm_chip_list greedy_driver)) = (0, greedy_chip) \<and>
   handoff_run demo_platform greedy_chip [Write 0 pcrread 14] = Some greedy_chip_written \<and>
   data_position greedy_chip_written = 0 \<and> data_pending greedy_chip_written = 5000 \<and>
   \<not> data_position greedy_chip_written + data_pending greedy_chip_written \<le> int TPM_BUFSIZE \<and>
   handoff_run demo_platform demo_chip
     [Write 0 pcrread 14, Read 4096 4, Reopen (replicate 2048 0)] = Some reopened_chip \<and>
   num_opens reopened_chip = 1 \<and> data_pending reopened_chip = 0 \<and>
   data_position reopened_chip = 4"
proof -
  have run: "handoff_run demo_platform greedy_chip [Write 0 pcrread 14] = Some greedy_chip_written"
    by (simp add: greedy_write)
  have vals: "data_position greedy_chip_written = 0" "data_pending greedy_chip_written = 5000"
    by (simp_all add: greedy_chip_written_def greedy_chip_eq(2))
  have out: "\<not> data_position greedy_chip_written + data_pending greedy_chip_written
               \<le> int TPM_BUFSIZE"
    unfolding vals by (simp add: TPM_BUFSIZE_def)
  have re: "num_opens reopened_chip = 1" "data_pending reopened_chip = 0"
    "data_position reopened_chip = 4"
    by (simp_all add: reopened_chip_def demo_chip_eq(2))
  from greedy_driver_eq(1) greedy_chip_eq(1) run vals out demo_run_reopen re
  show ?thesis by simp
qed

text \<open>
  C9, amended.  Take a chip as a successful registration leaves it, opened for the first time,
  and a vendor whose \<^verbatim>\<open>recv\<close> never reports more bytes than the capacity it was given.
  At that first open the cursor and the pending count are 0 (a later open sets the
  pending count to 0 and leaves the cursor).  After any sequence of writes
  (each with the cursor reset of its transaction), reads, timer expiries, closes followed
  by opens, and transactions started elsewhere in the kernel, the cursor is not negative
  and cursor plus pending count is at most \<^verbatim>\<open>TPM_BUFSIZE\<close>.
\<close>

theorem handoff_state_invariant:
  assumes reg: "tpm_register_hardware_nopci True True d entry h drv = (0, drv')"
    and opn: "tpm_open_chip (Some b) (hd (tpm_chip_list drv')) = (0, chip0)"
    and fits: "\<forall>h buf n. fst (recv entry h buf n) \<le> int n"
    and run: "handoff_run p chip0 xs = Some chip"
  shows "data_position chip0 = 0 \<and> data_pending chip0 = 0 \<and>
         0 \<le> data_position chip \<and>
         data_position chip + data_pending chip \<le> int TPM_BUFSIZE"
proof -
  from first_open[OF reg opn]
  have start: "data_position chip0 = 0" "data_pending chip0 = 0"
    and v: "recv (vendor chip0) = recv entry"
    by simp_all
  from start v fits have "handoff_inv chip0" by (simp add: handoff_inv_def)
  from handoff_inv_run[OF this run] start show ?thesis by (simp add: handoff_inv_def)
qed

theorem handoff_state_invariant_witness:
  "tpm_register_hardware_nopci True True 0 ready_vendor 0 driver_init = (0, demo_driver) \<and>
   tpm_open_chip (Some (replicate 2048 0)) (hd (tpm_chip_list demo_driver)) = (0, demo_chip) \<and>
   (\<forall>h buf n. fst (recv ready_vendor h buf n) \<le> int n) \<and>
   handoff_run demo_platform demo_chip [Write 0 pcrread 14, Read 4096 4] =
     Some (demo_chip\<lparr>data_buffer := demo_response @ drop 10 command_buffer,
                     data_pending := 6, data_position := 4, user_read_timer := None,
                     calls := [Send command_buffer 14, Status, Status, Recv TPM_BUFSIZE]\<rparr>) \<and>
   data_position demo_chip = 0 \<and> data_pending demo_chip = 0 \<and>
   (0::int) \<le> 4 \<and> (4::int) + 6 \<le> int TPM_BUFSIZE"
proof -
  have fits: "\<forall>h buf n. fst (recv ready_vendor h buf n) \<le> int n"
    by (simp add: ready_vendor_def)
  from handoff_state_invariant[OF demo_driver_eq(1) demo_chip_eq(1) fits demo_run]
  show ?thesis
    using demo_driver_eq(1) demo_chip_eq(1) fits demo_run by simp
qed

subsection \<open>PCR read\<close>

text \<open>The command that \<^verbatim>\<open>tpm_pcr_read\<close> builds always announces its 14 bytes.\<close>

lemma pcr_command_length:
  "be32_to_cpu (put_be32 (pcrread @ drop (length pcrread) stack) 10 idx) 2 = 14"
  by (simp add: be32_to_cpu_def put_be32_def pcrread_def nth_append)

lemma tpm_pcr_read_small_buffer:
  assumes "res_buf \<noteq> None" and "res_buf_size < int TPM_DIGEST_SIZE"
  shows "tpm_pcr_read p drv j stack chip_id pcr_idx res_buf res_buf_size =
           Some (- ENOSPC, res_buf, drv, j)"
  using assms by (simp add: tpm_pcr_read_def)

lemma tpm_pcr_read_no_chip:
  assumes "res_buf = None \<or> int TPM_DIGEST_SIZE \<le> res_buf_size"
    and "tpm_chip_lookup p (sint (chip_id AND TPM_CHIP_NUM_MASK p)) (tpm_chip_list drv) = None"
  shows "tpm_pcr_read p drv j stack chip_id pcr_idx res_buf res_buf_size =
           Some (- ENODEV, res_buf, drv, j)"
  using assms by (auto simp: tpm_pcr_read_def)

lemma tpm_pcr_read_transaction:
  assumes ok: "res_buf = None \<or> int TPM_DIGEST_SIZE \<le> res_buf_size"
    and found: "tpm_chip_lookup p (sint (chip_id AND TPM_CHIP_NUM_MASK p)) (tpm_chip_list drv)
                  = Some k"
    and free: "0 < tpm_mutex (tpm_chip_list drv ! k)"
  shows "\<exists>rc0 data' chip' j' rest.
           tpm_transmit p (tpm_chip_list drv ! k) j
             (put_be32 (pcrread @ drop (length pcrread) stack) 10 (word_of_int pcr_idx))
             READ_PCR_RESULT_SIZE = Some (rc0, data', chip', j') \<and>
           calls chip' = calls (tpm_chip_list drv ! k) @
             Send (put_be32 (pcrread @ drop (length pcrread) stack) 10 (word_of_int pcr_idx)) 14
             # rest \<and>
           tpm_pcr_read p drv j stack chip_id pcr_idx res_buf res_buf_size =
             Some (if 0 < rc0 then sint (be32_to_cpu data' 6) else rc0,
                   (case res_buf of
                      None \<Rightarrow> None
                    | Some r \<Rightarrow>
                        if (if 0 < rc0 then sint (be32_to_cpu data' 6) else rc0) = 0
                        then Some (take TPM_DIGEST_SIZE (drop 10 data') @ drop TPM_DIGEST_SIZE r)
                        else Some r),
                   drv\<lparr>tpm_chip_list := (tpm_chip_list drv)[k := chip']\<rparr>, j')"
proof -
  let ?data = "put_be32 (pcrread @ drop (length pcrread) stack) 10 (word_of_int pcr_idx)"
  have nz: "be32_to_cpu ?data 2 \<noteq> 0" by (simp add: pcr_command_length)
  have fits: "unat (be32_to_cpu ?data 2) \<le> READ_PCR_RESULT_SIZE"
    by (simp add: pcr_command_length READ_PCR_RESULT_SIZE_def)
  from tpm_transmit_sends[OF nz fits free, of p j]
  obtain rc0 data' chip' j' rest
    where tr: "tpm_transmit p (tpm_chip_list drv ! k) j ?data READ_PCR_RESULT_SIZE =
                 Some (rc0, data', chip', j')"
      and cs: "calls chip' = calls (tpm_chip_list drv ! k) @ Send ?data 14 # rest"
    by (auto simp: pcr_command_length)
  have "tpm_pcr_read p drv j stack chip_id pcr_idx res_buf res_buf_size =
             Some (if 0 < rc0 then sint (be32_to_cpu data' 6) else rc0,
                   (case res_buf of
                      None \<Rightarrow> None
                    | Some r \<Rightarrow>
                        if (if 0 < rc0 then sint (be32_to_cpu data' 6) else rc0) = 0
                        then Some (take TPM_DIGEST_SIZE (drop 10 data') @ drop TPM_DIGEST_SIZE r)
                        else Some r),
                   drv\<lparr>tpm_chip_list := (tpm_chip_list drv)[k := chip']\<rparr>, j')"
    using ok found tr by (auto simp: tpm_pcr_read_def Let_def)
  with tr cs show ?thesis by blast
qed

lemma failing_driver_eq:
  "tpm_chip_list (failing_driver e) =
     [(fresh_chip 0 ((failing_vendor e)\<lparr>miscdev_minor := TPM_MINOR\<rparr>) 0)\<lparr>dev_num := 0\<rparr>]"
  unfolding failing_driver_def driver_init_mask
  using register_first_word[of 0 "\<lparr>tpm_chip_list = [], dev_mask = mask 0 # replicate 31 0\<rparr>"
      "replicate 31 0" 0 "failing_vendor e" 0]
  by simp

text \<open>
  C10 does not hold as stated: \<^verbatim>\<open>-ENOSPC\<close> is also returned when the transaction
  supplies that value.  With the only chip bound to a vendor whose \<^verbatim>\<open>send\<close> fails with
  -28, \<^verbatim>\<open>tpm_pcr_read\<close> returns \<^verbatim>\<open>-ENOSPC\<close> for a null result buffer and for a result
  buffer of 20 bytes.
\<close>

theorem tpm_pcr_read_enospc_from_vendor:
  "map_option fst
     (tpm_pcr_read demo_platform (failing_driver (- 28)) 0 (replicate 30 0) 0 0 None 0)
     = Some (- ENOSPC) \<and>
   map_option fst
     (tpm_pcr_read demo_platform (failing_driver (- 28)) 0 (replicate 30 0) 0 0
        (Some (replicate 20 0)) 20)
     = Some (- ENOSPC)"
proof -
  let ?data = "put_be32 (pcrread @ drop (length pcrread) (replicate 30 0)) 10 (word_of_int 0)"
  let ?chip = "(fresh_chip 0 ((failing_vendor (- 28))\<lparr>miscdev_minor := TPM_MINOR\<rparr>) 0)
                 \<lparr>dev_num := 0\<rparr>"
  have dl: "be32_to_cpu ?data 2 = 14" by (rule pcr_command_length)
  have nz: "be32_to_cpu ?data 2 \<noteq> 0" unfolding dl by simp
  have fits: "unat (be32_to_cpu ?data 2) \<le> READ_PCR_RESULT_SIZE"
    unfolding dl by (simp add: READ_PCR_RESULT_SIZE_def)
  have free: "0 < tpm_mutex ?chip" by (simp add: fresh_chip_def)
  have fails: "fst (send (vendor ?chip) (hw ?chip) ?data (unat (be32_to_cpu ?data 2))) < 0"
    by (simp add: fresh_chip_def failing_vendor_def ready_vendor_def)
  have sv: "fst (send (vendor ?chip) (hw ?chip) ?data (unat (be32_to_cpu ?data 2))) = - 28"
    by (simp add: fresh_chip_def failing_vendor_def ready_vendor_def)
  have tr: "map_option fst (tpm_transmit demo_platform ?chip 0 ?data READ_PCR_RESULT_SIZE)
              = Some (- 28)"
    unfolding tpm_transmit_send_fails[OF nz fits free fails] sv by simp
  have lk: "tpm_chip_lookup demo_platform (sint ((0::u32) AND TPM_CHIP_NUM_MASK demo_platform))
              (tpm_chip_list (failing_driver (- 28))) = Some 0"
    by (simp add: tpm_chip_lookup_def failing_driver_eq)
  from tr obtain data' chip' j'
    where tr': "tpm_transmit demo_platform ?chip 0 ?data READ_PCR_RESULT_SIZE =
                  Some (- 28, data', chip', j')"
    by auto
  show ?thesis
    using lk tr'
    by (simp add: tpm_pcr_read_def Let_def failing_driver_eq ENOSPC_def TPM_DIGEST_SIZE_def)
qed

text \<open>
  C10, amended.  A result buffer that is not null and smaller than 20 bytes makes
  \<^verbatim>\<open>tpm_pcr_read\<close> return \<^verbatim>\<open>-ENOSPC\<close> at once, before any lookup or transaction.
  Otherwise (a null buffer, whatever the size argument, or a buffer of at least 20 bytes)
  it returns \<^verbatim>\<open>-ENODEV\<close> when no chip is found, and else runs the PCR read transaction
  on the chip found, whose vendor is sent the 14 byte command: the return value is the
  transaction's own result when that is not positive and the decoded word at offset 6
  of the response otherwise, so that \<^verbatim>\<open>-ENOSPC\<close> comes back only where the transaction
  supplies it; a null result buffer stays null and no digest is copied, and a buffer is
  given the 20 bytes at offset 10 exactly when the return value is 0.
\<close>

theorem tpm_pcr_read_result:
  "(res_buf \<noteq> None \<and> res_buf_size < int TPM_DIGEST_SIZE \<longrightarrow>
      tpm_pcr_read p drv j stack chip_id pcr_idx res_buf res_buf_size =
        Some (- ENOSPC, res_buf, drv, j)) \<and>
   ((res_buf = None \<or> int TPM_DIGEST_SIZE \<le> res_buf_size) \<and>
    tpm_chip_lookup p (sint (chip_id AND TPM_CHIP_NUM_MASK p)) (tpm_chip_list drv) = None \<longrightarrow>
      tpm_pcr_read p drv j stack chip_id pcr_idx res_buf res_buf_size =
        Some (- ENODEV, res_buf, drv, j)) \<and>
   ((res_buf = None \<or> int TPM_DIGEST_SIZE \<le> res_buf_size) \<and>
    tpm_chip_lookup p (sint (chip_id AND TPM_CHIP_NUM_MASK p)) (tpm_chip_list drv) = Some k \<and>
    0 < tpm_mutex (tpm_chip_list drv ! k) \<longrightarrow>
      (\<exists>rc0 data' chip' j' rest.
         tpm_transmit p (tpm_chip_list drv ! k) j
           (put_be32 (pcrread @ drop (length pcrread) stack) 10 (word_of_int pcr_idx))
           READ_PCR_RESULT_SIZE = Some (rc0, data', chip', j') \<and>
         calls chip' = calls (tpm_chip_list drv ! k) @
           Send (put_be32 (pcrread @ drop (length pcrread) stack) 10 (word_of_int pcr_idx)) 14
           # rest \<and>
         tpm_pcr_read p drv j stack chip_id pcr_idx res_buf res_buf_size =
           Some (if 0 < rc0 then sint (be32_to_cpu data' 6) else rc0,
                 (case res_buf of
                    None \<Rightarrow> None
                  | Some r \<Rightarrow>
                      if (if 0 < rc0 then sint (be32_to_cpu data' 6) else rc0) = 0
                      then Some (take TPM_DIGEST_SIZE (drop 10 data') @ drop TPM_DIGEST_SIZE r)
                      else Some r),
                 drv\<lparr>tpm_chip_list := (tpm_chip_list drv)[k := chip']\<rparr>, j')))"
proof (intro conjI impI)
  assume "res_buf \<noteq> None \<and> res_buf_size < int TPM_DIGEST_SIZE"
  then show "tpm_pcr_read p drv j stack chip_id pcr_idx res_buf res_buf_size =
               Some (- ENOSPC, res_buf, drv, j)"
    by (intro tpm_pcr_read_small_buffer) simp_all
next
  assume "(res_buf = None \<or> int TPM_DIGEST_SIZE \<le> res_buf_size) \<and>
          tpm_chip_lookup p (sint (chip_id AND TPM_CHIP_NUM_MASK p)) (tpm_chip_list drv) = None"
  then show "tpm_pcr_read p drv j stack chip_id pcr_idx res_buf res_buf_size =
               Some (- ENODEV, res_buf, drv, j)"
    by (intro tpm_pcr_read_no_chip) simp_all
next
  assume a: "(res_buf = None \<or> int TPM_DIGEST_SIZE \<le> res_buf_size) \<and>
          tpm_chip_lookup p (sint (chip_id AND TPM_CHIP_NUM_MASK p)) (tpm_chip_list drv) = Some k \<and>
          0 < tpm_mutex (tpm_chip_list drv ! k)"
  then have ok: "res_buf = None \<or> int TPM_DIGEST_SIZE \<le> res_buf_size"
    and found: "tpm_chip_lookup p (sint (chip_id AND TPM_CHIP_NUM_MASK p)) (tpm_chip_list drv)
                  = Some k"
    and free: "0 < tpm_mutex (tpm_chip_list drv ! k)"
    by simp_all
  show "\<exists>rc0 data' chip' j' rest.
         tpm_transmit p (tpm_chip_list drv ! k) j
           (put_be32 (pcrread @ drop (length pcrread) stack) 10 (word_of_int pcr_idx))
           READ_PCR_RESULT_SIZE = Some (rc0, data', chip', j') \<and>
         calls chip' = calls (tpm_chip_list drv ! k) @
           Send (put_be32 (pcrread @ drop (length pcrread) stack) 10 (word_of_int pcr_idx)) 14
           # rest \<and>
         tpm_pcr_read p drv j stack chip_id pcr_idx res_buf res_buf_size =
           Some (if 0 < rc0 then sint (be32_to_cpu data' 6) else rc0,
                 (case res_buf of
                    None \<Rightarrow> None
                  | Some r \<Rightarrow>
                      if (if 0 < rc0 then sint (be32_to_cpu data' 6) else rc0) = 0
                      then Some (take TPM_DIGEST_SIZE (drop 10 data') @ drop TPM_DIGEST_SIZE r)
                      else Some r),
                 drv\<lparr>tpm_chip_list := (tpm_chip_list drv)[k := chip']\<rparr>, j')"
    by (rule tpm_pcr_read_transaction[OF ok found free])
qed

theorem tpm_pcr_read_result_witness:
  "Some (replicate 4 0) \<noteq> (None :: u8 list option) \<and> (4::int) < int TPM_DIGEST_SIZE \<and>
   tpm_pcr_read demo_platform demo_driver 0 (replicate 30 0) 0 0 (Some (replicate 4 0)) 4 =
     Some (- ENOSPC, Some (replicate 4 0), demo_driver, 0) \<and>
   tpm_chip_lookup demo_platform (sint ((5::u32) AND TPM_CHIP_NUM_MASK demo_platform))
     (tpm_chip_list demo_driver) = None \<and>
   tpm_pcr_read demo_platform demo_driver 0 (replicate 30 0) 5 0 None 0 =
     Some (- ENODEV, None, demo_driver, 0) \<and>
   tpm_chip_lookup demo_platform (sint ((0::u32) AND TPM_CHIP_NUM_MASK demo_platform))
     (tpm_chip_list demo_driver) = Some 0 \<and>
   0 < tpm_mutex (tpm_chip_list demo_driver ! 0) \<and>
   (\<exists>rc0 data' chip' j' rest.
      tpm_transmit demo_platform (tpm_chip_list demo_driver ! 0) 0
        (put_be32 (pcrread @ drop (length pcrread) (replicate 30 0)) 10 (word_of_int 0))
        READ_PCR_RESULT_SIZE = Some (rc0, data', chip', j') \<and>
      calls chip' = calls (tpm_chip_list demo_driver ! 0) @
        Send (put_be32 (pcrread @ drop (length pcrread) (replicate 30 0)) 10 (word_of_int 0)) 14
        # rest \<and>
      tpm_pcr_read demo_platform demo_driver 0 (replicate 30 0) 0 0 None 0 =
        Some (if 0 < rc0 then sint (be32_to_cpu data' 6) else rc0, None,
              demo_driver\<lparr>tpm_chip_list := (tpm_chip_list demo_driver)[0 := chip']\<rparr>, j'))"
proof -
  have small: "(4::int) < int TPM_DIGEST_SIZE" by (simp add: TPM_DIGEST_SIZE_def)
  have none: "tpm_chip_lookup demo_platform (sint ((5::u32) AND TPM_CHIP_NUM_MASK demo_platform))
                (tpm_chip_list demo_driver) = None"
    by (simp add: tpm_chip_lookup_def demo_driver_eq demo_platform_def)
  have found: "tpm_chip_lookup demo_platform
                 (sint ((0::u32) AND TPM_CHIP_NUM_MASK demo_platform))
                 (tpm_chip_list demo_driver) = Some 0"
    by (simp add: tpm_chip_lookup_def demo_driver_eq)
  have free: "0 < tpm_mutex (tpm_chip_list demo_driver ! 0)"
    by (simp add: demo_driver_eq fresh_chip_def)
  from tpm_pcr_read_result[of "Some (replicate 4 0)" 4 demo_platform demo_driver 0
      "replicate 30 0" 0 0 0]
    tpm_pcr_read_result[of None 0 demo_platform demo_driver 0 "replicate 30 0" 5 0 0]
    tpm_pcr_read_result[of None 0 demo_platform demo_driver 0 "replicate 30 0" 0 0 0]
  show ?thesis using small none found free by simp
qed

end
